theory Spec2Isabelle
  imports Main "HOL-Library.AList" "HOL-Library.Multiset" "HOL-Library.Char_ord"
    "HOL-Library.List_Lexorder"
begin

section \<open>Data model of \<open>Visualizations.tsx\<close>\<close>

text \<open>
  Modelled from the spec: the TypeScript declarations of \<open>AppState\<close>, \<open>Budget\<close> and
  \<open>GlobalTransaction\<close> (\<open>../types\<close>) are not among the sources. The records below
  carry the fields the component reads, typed as the data model of the specification
  describes them: amounts are integer currency units, timestamps are instants (integral
  millisecond time values, as \<open>new Date(t)\<close> takes them), the type of a transaction is
  \<open>'add'\<close> (credit) or \<open>'remove'\<close> (debit). A field that may be missing
  (\<open>undefined\<close>) is an \<open>option\<close>.
\<close>

datatype tx_type = Add | Remove

record transaction =
  timestamp :: int
  amount :: int
  desc :: string
  type :: tx_type

record global_transaction = transaction +
  category :: "string option"

record daily_expense = transaction +
  sourceCategory :: "string option"

record archive =
  transactions :: "global_transaction list"

record budget =
  name :: string
  totalBudget :: int
  history :: "transaction list"

record app_state =
  archives :: "archive list"
  fundHistory :: "transaction list"
  budgets :: "budget list"
  dailyExpenses :: "daily_expense list"

subsection \<open>JavaScript helpers\<close>

text \<open>\<open>a || b\<close> on an optional string: \<open>undefined\<close> and the empty string are falsy.\<close>

definition or_else :: "string option \<Rightarrow> string \<Rightarrow> string" where
  "or_else a b = (case a of None \<Rightarrow> b | Some s \<Rightarrow> if s = [] then b else s)"

text \<open>
  The dictionary of daily totals: a plain object whose keys are date strings. Every key
  written or read there contains a hyphen, which no property name of \<open>Object.prototype\<close>
  does, and the object is read by key only, never enumerated. So its own properties are all
  there is to it: an association list from strings to numbers, \<open>d[k]\<close> is \<open>map_of d k\<close>
  (\<open>None\<close> for \<open>undefined\<close>) and \<open>d[k] = v\<close> is \<open>AList.update k v d\<close>. The dictionary of
  category totals, whose keys are free text, is modelled with its prototype chain further
  down (\<open>object\<close>); \<open>accumulate_numeric\<close> relates the two.
\<close>

type_synonym dict = "(string \<times> int) list"

text \<open>\<open>!d[k]\<close>: true for a key that is absent and for a stored \<open>0\<close>.\<close>

definition falsy_at :: "dict \<Rightarrow> string \<Rightarrow> bool" where
  "falsy_at d k = (case map_of d k of None \<Rightarrow> True | Some v \<Rightarrow> v = 0)"

text \<open>\<open>d[k] || 0\<close>.\<close>

definition get_or_zero :: "dict \<Rightarrow> string \<Rightarrow> int" where
  "get_or_zero d k = (case map_of d k of None \<Rightarrow> 0 | Some v \<Rightarrow> v)"

text \<open>
  The shared \<open>forEach\<close> body \<open>if (!d[k]) d[k] = 0; d[k] += a\<close>. After the guard the
  key is present, so the read in \<open>+=\<close> never meets \<open>undefined\<close>.
\<close>

definition add_to :: "dict \<Rightarrow> string \<Rightarrow> int \<Rightarrow> dict" where
  "add_to d k a =
     (let d1 = (if falsy_at d k then AList.update k 0 d else d)
      in AList.update k (get_or_zero d1 k + a) d1)"

text \<open>\<open>xs.reduce((sum, t) => sum + t.amount, 0)\<close>.\<close>

definition reduce_amounts :: "('a transaction_scheme) list \<Rightarrow> int" where
  "reduce_amounts xs = foldl (\<lambda>sum t. sum + amount t) 0 xs"

subsection \<open>Strings and numbers\<close>

definition digit_char :: "nat \<Rightarrow> char" where
  "digit_char n = ''0123456789'' ! n"

text \<open>\<open>String(n)\<close> for a non-negative integer: its decimal digits.\<close>

fun digits :: "nat \<Rightarrow> string" where
  "digits n = (if n < 10 then [digit_char n] else digits (n div 10) @ [digit_char (n mod 10)])"

declare digits.simps [simp del]

definition String_of :: "int \<Rightarrow> string" where
  "String_of i = (if i < 0 then CHR ''-'' # digits (nat (- i)) else digits (nat i))"

definition padStart :: "nat \<Rightarrow> char \<Rightarrow> string \<Rightarrow> string" where
  "padStart w c s = replicate (w - length s) c @ s"

definition pad2 :: "int \<Rightarrow> string" where
  "pad2 i = padStart 2 CHR ''0'' (String_of i)"

text \<open>\<open>s.slice(a, b)\<close> for \<open>0 \<le> a \<le> b\<close> and \<open>s.startsWith(p)\<close>.\<close>

definition slice :: "nat \<Rightarrow> nat \<Rightarrow> string \<Rightarrow> string" where
  "slice a b s = take (b - a) (drop a s)"

definition startsWith :: "string \<Rightarrow> string \<Rightarrow> bool" where
  "startsWith s p = (take (length p) s = p)"

text \<open>
  \<open>Number(s)\<close> on the strings the component applies it to (slices of a period key): an
  optional sign followed by decimal digits; the empty string is \<open>0\<close>; \<open>None\<close> is \<open>NaN\<close>.
\<close>

definition digit_val :: "char \<Rightarrow> nat option" where
  "digit_val c = (let n = (of_char c :: nat) in if 48 \<le> n \<and> n \<le> 57 then Some (n - 48) else None)"

fun parse_digits :: "nat \<Rightarrow> string \<Rightarrow> nat option" where
  "parse_digits acc [] = Some acc"
| "parse_digits acc (c # cs) =
     (case digit_val c of None \<Rightarrow> None | Some v \<Rightarrow> parse_digits (10 * acc + v) cs)"

definition Number :: "string \<Rightarrow> int option" where
  "Number s =
     (case s of
        [] \<Rightarrow> Some 0
      | c # cs \<Rightarrow>
          if c = CHR ''-'' then (if cs = [] then None
                                 else map_option (\<lambda>n. - int n) (parse_digits 0 cs))
          else if c = CHR ''+'' then (if cs = [] then None
                                      else map_option int (parse_digits 0 cs))
          else map_option int (parse_digits 0 s))"

subsection \<open>Plain objects\<close>

text \<open>
  What a property of an object literal \<open>{}\<close> that is filled by \<open>+=\<close> with numbers can hold
  or yield: \<open>undefined\<close>, \<open>NaN\<close>, a number, a string, or a member inherited from
  \<open>Object.prototype\<close> (\<open>Member k\<close> is the inherited member of name \<open>k\<close>: a built-in
  function, or for \<open>__proto__\<close> the prototype object that its getter returns).
\<close>

datatype js_value = Undefined | NaN | Num int | Str string | Member string

text \<open>The property names of \<open>Object.prototype\<close>.\<close>

definition Object_prototype_names :: "string list" where
  "Object_prototype_names =
     [''constructor'', ''__defineGetter__'', ''__defineSetter__'', ''hasOwnProperty'',
      ''__lookupGetter__'', ''__lookupSetter__'', ''isPrototypeOf'', ''propertyIsEnumerable'',
      ''toString'', ''valueOf'', ''__proto__'', ''toLocaleString'']"

text \<open>
  The string an inherited member turns into when it is an operand of \<open>+\<close>: the source text
  of a built-in function (its words are fixed by the language, the white space is the one
  V8 prints), and \<open>[object Object]\<close> for the prototype object.
\<close>

definition member_text :: "string \<Rightarrow> string" where
  "member_text k =
     (if k = ''__proto__'' then ''[object Object]''
      else ''function '' @ (if k = ''constructor'' then ''Object'' else k)
             @ ''() { [native code] }'')"

text \<open>
  An object is the list of its own properties in the order of their creation. \<open>d[k]\<close>
  (\<open>get_property\<close>) reads the own property, else the member inherited under that name, else
  \<open>undefined\<close>. \<open>d[k] = v\<close> (\<open>set_property\<close>) overwrites or creates an own property; only for
  \<open>__proto__\<close> the assignment runs the inherited setter, which ignores a value that is neither
  an object nor \<open>null\<close>, and the object stays as it is.
\<close>

type_synonym object = "(string \<times> js_value) list"

definition get_property :: "object \<Rightarrow> string \<Rightarrow> js_value" where
  "get_property d k =
     (case map_of d k of
        Some v \<Rightarrow> v
      | None \<Rightarrow> if k \<in> set Object_prototype_names then Member k else Undefined)"

definition set_property :: "object \<Rightarrow> string \<Rightarrow> js_value \<Rightarrow> object" where
  "set_property d k v = (if k = ''__proto__'' then d else AList.update k v d)"

text \<open>\<open>!v\<close> is true for \<open>undefined\<close>, \<open>NaN\<close>, \<open>0\<close> and the empty string; a function is truthy.\<close>

definition falsy :: "js_value \<Rightarrow> bool" where
  "falsy v = (v = Undefined \<or> v = NaN \<or> v = Num 0 \<or> v = Str [])"

text \<open>\<open>v + a\<close> for a number \<open>a\<close>: addition on numbers, concatenation once \<open>v\<close> is not one.\<close>

definition js_plus :: "js_value \<Rightarrow> int \<Rightarrow> js_value" where
  "js_plus v a =
     (case v of
        Undefined \<Rightarrow> NaN
      | NaN \<Rightarrow> NaN
      | Num n \<Rightarrow> Num (n + a)
      | Str s \<Rightarrow> Str (s @ String_of a)
      | Member k \<Rightarrow> Str (member_text k @ String_of a))"

text \<open>\<open>v || 0\<close>.\<close>

definition or_zero :: "js_value \<Rightarrow> js_value" where
  "or_zero v = (if falsy v then Num 0 else v)"

text \<open>The \<open>forEach\<close> body \<open>if (!d[k]) d[k] = 0; d[k] += a\<close> on such an object.\<close>

definition accumulate :: "object \<Rightarrow> string \<Rightarrow> int \<Rightarrow> object" where
  "accumulate d k a =
     (let d1 = (if falsy (get_property d k) then set_property d k (Num 0) else d)
      in set_property d1 k (js_plus (get_property d1 k) a))"

text \<open>
  \<open>Object.entries\<close> lists the own properties: first those whose name is an array index (the
  canonical decimal numeral of an integer below \<open>2\<^sup>3\<^sup>2 - 1\<close>) in ascending numeric order,
  then the others in the order of their creation.
\<close>

definition array_index :: "string \<Rightarrow> nat option" where
  "array_index k =
     (case parse_digits 0 k of
        None \<Rightarrow> None
      | Some n \<Rightarrow> if digits n = k \<and> int n < 4294967295 then Some n else None)"

definition index_of :: "string \<Rightarrow> nat" where
  "index_of k = (case array_index k of None \<Rightarrow> 0 | Some n \<Rightarrow> n)"

definition Object_entries :: "object \<Rightarrow> (string \<times> js_value) list" where
  "Object_entries d =
     sort_key (\<lambda>(k, v). index_of k) (filter (\<lambda>(k, v). array_index k \<noteq> None) d)
       @ filter (\<lambda>(k, v). array_index k = None) d"

text \<open>
  \<open>ToNumber\<close>, as the subtraction in a sort comparator applies it. A string in such an
  object starts with the text of an inherited member, on which \<open>Number\<close> is \<open>NaN\<close>.
\<close>

definition to_number :: "js_value \<Rightarrow> int option" where
  "to_number v = (case v of Num n \<Rightarrow> Some n | Str s \<Rightarrow> Number s | _ \<Rightarrow> None)"

text \<open>
  \<open>xs.sort(cmp)\<close>: a stable insertion sort that puts \<open>x\<close> before the first \<open>y\<close> with
  \<open>cmp x y \<le> 0\<close>. For a comparator that orders the elements consistently every stable sort
  gives this list; for any other the order of the result is up to the engine.
\<close>

fun insert_by :: "('a \<Rightarrow> 'a \<Rightarrow> int) \<Rightarrow> 'a \<Rightarrow> 'a list \<Rightarrow> 'a list" where
  "insert_by cmp x [] = [x]"
| "insert_by cmp x (y # ys) = (if cmp x y \<le> 0 then x # y # ys else y # insert_by cmp x ys)"

definition sort_by :: "('a \<Rightarrow> 'a \<Rightarrow> int) \<Rightarrow> 'a list \<Rightarrow> 'a list" where
  "sort_by cmp xs = foldr (insert_by cmp) xs []"

text \<open>
  Two notions for stating what such an object holds when all its values are numbers: the
  object with the own properties of a numeric dictionary, and the number in a value.
\<close>

definition numeric :: "dict \<Rightarrow> object" where
  "numeric d = map (\<lambda>(k, n). (k, Num n)) d"

definition the_number :: "js_value \<Rightarrow> int" where
  "the_number v = (case v of Num n \<Rightarrow> n | _ \<Rightarrow> 0)"

subsection \<open>The \<open>Date\<close> built-in\<close>

text \<open>
  A \<open>Date\<close> is its time value, milliseconds since the epoch, taken within the range in
  which \<open>new Date(t)\<close> is a valid date. The functions follow the abstract operations of
  the ECMAScript specification (proleptic Gregorian calendar). The local time zone is its
  offset \<open>tza\<close> from UTC in milliseconds (\<open>LocalTZA\<close>), fixed over the instants involved.
\<close>

definition msPerDay :: int where
  "msPerDay = 86400000"

definition Day :: "int \<Rightarrow> int" where
  "Day t = t div msPerDay"

definition TimeWithinDay :: "int \<Rightarrow> int" where
  "TimeWithinDay t = t mod msPerDay"

definition leap_year :: "int \<Rightarrow> bool" where
  "leap_year y = (y mod 4 = 0 \<and> (y mod 100 \<noteq> 0 \<or> y mod 400 = 0))"

definition DaysInYear :: "int \<Rightarrow> int" where
  "DaysInYear y = (if leap_year y then 366 else 365)"

definition DayFromYear :: "int \<Rightarrow> int" where
  "DayFromYear y = 365 * (y - 1970) + (y - 1969) div 4 - (y - 1901) div 100 + (y - 1601) div 400"

text \<open>
  \<open>YearFromTime\<close>: the largest year whose first day is not after the given day, found by
  walking up from a year that is never too late.
\<close>

function year_search :: "int \<Rightarrow> int \<Rightarrow> int" where
  "year_search d y = (if DayFromYear (y + 1) \<le> d then year_search d (y + 1) else y)"
  by pat_completeness auto
termination
proof (relation "measure (\<lambda>(d, y). nat (d - DayFromYear y))")
  show "wf (measure (\<lambda>(d, y). nat (d - DayFromYear y)))"
    by simp
next
  fix d y :: int
  assume le: "DayFromYear (y + 1) \<le> d"
  define p q r where "p = (y - 1969) div 4" and "q = (y - 1901) div 100"
    and "r = (y - 1601) div 400"
  define p' q' r' where "p' = (y + 1 - 1969) div 4" and "q' = (y + 1 - 1901) div 100"
    and "r' = (y + 1 - 1601) div 400"
  have "p \<le> p'" "r \<le> r'"
    unfolding p_def p'_def r_def r'_def by (rule zdiv_mono1; simp)+
  moreover have "q' \<le> (y - 1901 + 100) div 100"
    unfolding q'_def by (rule zdiv_mono1) simp_all
  then have "q' \<le> q + 1"
    by (simp add: q_def)
  moreover have "DayFromYear y = 365 * (y - 1970) + p - q + r"
    and "DayFromYear (y + 1) = 365 * (y + 1 - 1970) + p' - q' + r'"
    by (simp_all only: DayFromYear_def p_def q_def r_def p'_def q'_def r'_def)
  ultimately have "DayFromYear y < DayFromYear (y + 1)"
    by arith
  with le show "((d, y + 1), (d, y)) \<in> measure (\<lambda>(d, y). nat (d - DayFromYear y))"
    by simp
qed

declare year_search.simps [simp del]

definition year_guess :: "int \<Rightarrow> int" where
  "year_guess d = 1970 + (if 0 \<le> d then d div 366 else d div 365)"

definition YearFromDay :: "int \<Rightarrow> int" where
  "YearFromDay d = year_search d (year_guess d)"

definition YearFromTime :: "int \<Rightarrow> int" where
  "YearFromTime t = YearFromDay (Day t)"

definition InLeapYear :: "int \<Rightarrow> bool" where
  "InLeapYear t = leap_year (YearFromTime t)"

definition DayWithinYear :: "int \<Rightarrow> int" where
  "DayWithinYear t = Day t - DayFromYear (YearFromTime t)"

text \<open>The day within the year on which month \<open>m\<close> (\<open>0\<close> for January) begins.\<close>

definition month_start :: "bool \<Rightarrow> int \<Rightarrow> int" where
  "month_start leap m =
     (let l = (if leap then 1 else 0)
      in [0, 31, 59 + l, 90 + l, 120 + l, 151 + l, 181 + l, 212 + l, 243 + l, 273 + l,
          304 + l, 334 + l] ! nat m)"

definition MonthFromTime :: "int \<Rightarrow> int" where
  "MonthFromTime t =
     (let d = DayWithinYear t; l = (if InLeapYear t then 1 else 0)
      in if d < 31 then 0 else if d < 59 + l then 1 else if d < 90 + l then 2
         else if d < 120 + l then 3 else if d < 151 + l then 4 else if d < 181 + l then 5
         else if d < 212 + l then 6 else if d < 243 + l then 7 else if d < 273 + l then 8
         else if d < 304 + l then 9 else if d < 334 + l then 10 else 11)"

definition DateFromTime :: "int \<Rightarrow> int" where
  "DateFromTime t = DayWithinYear t - month_start (InLeapYear t) (MonthFromTime t) + 1"

definition HourFromTime :: "int \<Rightarrow> int" where
  "HourFromTime t = (TimeWithinDay t div 3600000) mod 24"

definition MinFromTime :: "int \<Rightarrow> int" where
  "MinFromTime t = (TimeWithinDay t div 60000) mod 60"

definition SecFromTime :: "int \<Rightarrow> int" where
  "SecFromTime t = (TimeWithinDay t div 1000) mod 60"

definition msFromTime :: "int \<Rightarrow> int" where
  "msFromTime t = TimeWithinDay t mod 1000"

definition MakeDay :: "int \<Rightarrow> int \<Rightarrow> int \<Rightarrow> int" where
  "MakeDay year month date =
     (let ym = year + month div 12; mn = month mod 12
      in DayFromYear ym + month_start (leap_year ym) mn + date - 1)"

definition MakeDate :: "int \<Rightarrow> int \<Rightarrow> int" where
  "MakeDate day time = day * msPerDay + time"

text \<open>The \<open>Date(year, month, date)\<close> constructor reads the years \<open>0..99\<close> as \<open>1900..1999\<close>.\<close>

definition MakeFullYear :: "int \<Rightarrow> int" where
  "MakeFullYear y = (if 0 \<le> y \<and> y \<le> 99 then 1900 + y else y)"

definition new_Date :: "int \<Rightarrow> int \<Rightarrow> int \<Rightarrow> int \<Rightarrow> int" where
  "new_Date tza year month date = MakeDate (MakeDay (MakeFullYear year) month date) 0 - tza"

definition getFullYear :: "int \<Rightarrow> int \<Rightarrow> int" where
  "getFullYear tza t = YearFromTime (t + tza)"

definition getMonth :: "int \<Rightarrow> int \<Rightarrow> int" where
  "getMonth tza t = MonthFromTime (t + tza)"

definition getDate :: "int \<Rightarrow> int \<Rightarrow> int" where
  "getDate tza t = DateFromTime (t + tza)"

text \<open>
  \<open>toISOString\<close>: always UTC; four-digit years \<open>0000..9999\<close>, otherwise a sign and six
  digits.
\<close>

definition iso_year :: "int \<Rightarrow> string" where
  "iso_year y =
     (if 0 \<le> y \<and> y \<le> 9999 then padStart 4 CHR ''0'' (digits (nat y))
      else (if y < 0 then ''-'' else ''+'') @ padStart 6 CHR ''0'' (digits (nat \<bar>y\<bar>)))"

definition toISOString :: "int \<Rightarrow> string" where
  "toISOString t =
     iso_year (YearFromTime t) @ ''-'' @ pad2 (MonthFromTime t + 1) @ ''-''
       @ pad2 (DateFromTime t) @ ''T'' @ pad2 (HourFromTime t) @ '':'' @ pad2 (MinFromTime t)
       @ '':'' @ pad2 (SecFromTime t) @ ''.'' @ padStart 3 CHR ''0'' (String_of (msFromTime t))
       @ ''Z''"

text \<open>
  \<open>toLocaleDateString('fr-CA')\<close>: the local calendar date in the pattern \<open>y-MM-dd\<close>,
  which is \<open>YYYY-MM-DD\<close> for the years \<open>1000..9999\<close>; nothing below relies on how
  other years are written.
\<close>

definition toLocaleDateString_frCA :: "int \<Rightarrow> int \<Rightarrow> string" where
  "toLocaleDateString_frCA tza t =
     (let l = t + tza
      in String_of (YearFromTime l) @ ''-'' @ pad2 (MonthFromTime l + 1) @ ''-''
           @ pad2 (DateFromTime l))"

section \<open>Ledger normalizer: \<open>allExpenses\<close>\<close>

definition retag :: "tx_type \<Rightarrow> string \<Rightarrow> transaction \<Rightarrow> global_transaction" where
  "retag ty c t = \<lparr>timestamp = timestamp t, amount = amount t, desc = desc t,
     type = ty, category = Some c\<rparr>"

definition from_archives :: "archive list \<Rightarrow> global_transaction list" where
  "from_archives as = concat (map (\<lambda>a. filter (\<lambda>t. type t = Remove) (transactions a)) as)"

definition from_fund :: "transaction list \<Rightarrow> global_transaction list" where
  "from_fund fh = map (\<lambda>t. retag (type t) ''Pengeluaran Umum'' t)
     (filter (\<lambda>t. type t = Remove) fh)"

definition from_budgets :: "budget list \<Rightarrow> global_transaction list" where
  "from_budgets bs = concat (map (\<lambda>b. map (\<lambda>h. retag Remove (name b) h) (history b)) bs)"

definition from_daily :: "daily_expense list \<Rightarrow> global_transaction list" where
  "from_daily ds = map (\<lambda>t. retag Remove (or_else (sourceCategory t) ''Harian'')
     (transaction.truncate t)) ds"

definition allExpenses :: "app_state \<Rightarrow> global_transaction list" where
  "allExpenses st = from_archives (archives st) @ from_fund (fundHistory st)
     @ from_budgets (budgets st) @ from_daily (dailyExpenses st)"

section \<open>Categorical aggregator, budget comparator, click-to-detail\<close>

text \<open>The category every consumer reads: \<open>expense.category || 'Lain-lain'\<close>.\<close>

definition resolved_category :: "global_transaction \<Rightarrow> string" where
  "resolved_category e = or_else (category e) ''Lain-lain''"

text \<open>
  \<open>expenseByCategory\<close> is an object literal \<open>{}\<close> keyed by category, which is free text: the
  name of a budget, the source category of a daily expense, the category of an archived
  record.
\<close>

definition expenseByCategory :: "global_transaction list \<Rightarrow> object" where
  "expenseByCategory fe =
     foldl (\<lambda>d expense. accumulate d (resolved_category expense) (amount expense)) [] fe"

record pie_entry =
  pname :: string
  pvalue :: js_value

text \<open>
  The comparator \<open>(a, b) => b.value - a.value\<close>; a difference that is \<open>NaN\<close> counts as \<open>0\<close>
  in \<open>sort\<close>.
\<close>

definition by_value_desc :: "pie_entry \<Rightarrow> pie_entry \<Rightarrow> int" where
  "by_value_desc a b =
     (case (to_number (pvalue b), to_number (pvalue a)) of
        (Some y, Some x) \<Rightarrow> y - x
      | _ \<Rightarrow> 0)"

definition pieChartData :: "global_transaction list \<Rightarrow> pie_entry list" where
  "pieChartData fe =
     sort_by by_value_desc
       (map (\<lambda>(k, v). \<lparr>pname = k, pvalue = v\<rparr>) (Object_entries (expenseByCategory fe)))"

record budget_row =
  rname :: string
  Dianggarkan :: int
  Terpakai :: js_value

definition budgetComparisonData :: "global_transaction list \<Rightarrow> budget list \<Rightarrow> budget_row list" where
  "budgetComparisonData fe bs =
     (let d = expenseByCategory fe
      in map (\<lambda>b. \<lparr>rname = name b, Dianggarkan = totalBudget b,
                    Terpakai = or_zero (get_property d (name b))\<rparr>) bs)"

record detail =
  dcategory :: string
  dtransactions :: "global_transaction list"

text \<open>
  \<open>handlePieClick\<close>: the argument is \<open>data.name\<close> (\<open>None\<close> when the payload or its name
  is missing); the result is the value handed to \<open>setDetailModalData\<close>, \<open>None\<close> when the
  guard returns without setting anything.
\<close>

definition handlePieClick :: "string option \<Rightarrow> global_transaction list \<Rightarrow> detail option" where
  "handlePieClick data_name fe =
     (case data_name of
        None \<Rightarrow> None
      | Some c \<Rightarrow>
          if c = [] then None
          else Some \<lparr>dcategory = c,
                     dtransactions = sort_key (\<lambda>e. - amount e)
                       (filter (\<lambda>e. resolved_category e = c) fe)\<rparr>)"

section \<open>Period selector\<close>

text \<open>A \<open>Set\<close> of strings in insertion order.\<close>

definition Set_add :: "string list \<Rightarrow> string \<Rightarrow> string list" where
  "Set_add s k = (if k \<in> set s then s else s @ [k])"

definition month_key :: "int \<Rightarrow> string" where
  "month_key t = slice 0 7 (toISOString t)"

text \<open>
  \<open>monthOptions\<close>; \<open>now\<close> is the time value of \<open>new Date()\<close>. The default \<open>sort()\<close>
  compares strings by their code units, the lexicographic order on \<open>string\<close>.
\<close>

definition monthOptions :: "int \<Rightarrow> global_transaction list \<Rightarrow> string list" where
  "monthOptions now all =
     (let options = foldl Set_add [] (map (\<lambda>t. month_key (timestamp t)) all);
          options = (if length options = 0 then Set_add options (month_key now) else options)
      in ''all'' # rev (sort options))"

definition filteredExpenses :: "global_transaction list \<Rightarrow> string \<Rightarrow> global_transaction list" where
  "filteredExpenses all selectedMonth =
     (if selectedMonth = ''all'' then all
      else filter (\<lambda>e. startsWith (toISOString (timestamp e)) selectedMonth) all)"

definition totalIncomeForMonth :: "transaction list \<Rightarrow> string \<Rightarrow> int" where
  "totalIncomeForMonth fh selectedMonth =
     (if selectedMonth = ''all'' then 0
      else reduce_amounts
        (filter (\<lambda>t. type t = Add \<and> startsWith (toISOString (timestamp t)) selectedMonth) fh))"

section \<open>Daily trend builder\<close>

record trend_point =
  day :: string
  total :: int

definition dailyTotals :: "int \<Rightarrow> global_transaction list \<Rightarrow> dict" where
  "dailyTotals tza fe =
     foldl (\<lambda>d expense. add_to d (toLocaleDateString_frCA tza (timestamp expense)) (amount expense))
       [] fe"

text \<open>
  \<open>new Date(Number(s.slice(0,4)), Number(s.slice(5,7)), 0).getDate()\<close>; \<open>None\<close> is the
  \<open>NaN\<close> of an invalid date.
\<close>

definition daysInMonth :: "int \<Rightarrow> string \<Rightarrow> int option" where
  "daysInMonth tza selectedMonth =
     (case (Number (slice 0 4 selectedMonth), Number (slice 5 7 selectedMonth)) of
        (Some y, Some m) \<Rightarrow> Some (getDate tza (new_Date tza y m 0))
      | _ \<Rightarrow> None)"

definition trendData :: "int \<Rightarrow> global_transaction list \<Rightarrow> string \<Rightarrow> trend_point list" where
  "trendData tza fe selectedMonth =
     (if selectedMonth = ''all'' then []
      else case daysInMonth tza selectedMonth of
             None \<Rightarrow> []
           | Some n \<Rightarrow>
               map (\<lambda>i. \<lparr>day = String_of i,
                          total = get_or_zero (dailyTotals tza fe)
                                    (selectedMonth @ ''-'' @ pad2 i)\<rparr>) [1..n])"

section \<open>Forecast engine: \<open>fetchForecast\<close>\<close>

text \<open>
  The four numbers interpolated into the prompt sent to the text-generation service. The
  prompt's fixed text asks the service to work out the month-end projection from them.
\<close>

record forecast_prompt =
  totalIncome :: int
  totalExpensesSoFar :: int
  daysPassed :: int
  totalDaysInMonth :: int

text \<open>
  What one run of the effect does: either it sets the forecast text itself
  (\<open>setAiForecast\<close>, \<open>None\<close> for \<open>null\<close>), or it calls \<open>generateContent\<close> with a prompt.
\<close>

datatype forecast_effect = SetForecast "string option" | GenerateContent forecast_prompt

definition fetchForecast ::
  "int \<Rightarrow> int \<Rightarrow> string \<Rightarrow> global_transaction list \<Rightarrow> int \<Rightarrow> forecast_effect" where
  "fetchForecast tza now selectedMonth filtered income =
     (if selectedMonth = ''all'' then SetForecast None
      else case (Number (slice 0 4 selectedMonth), Number (slice 5 7 selectedMonth)) of
        (Some year, Some m) \<Rightarrow>
          (let month = m - 1;
               today = now;
               isCurrentMonth = (getFullYear tza today = year \<and> getMonth tza today = month)
           in if \<not> isCurrentMonth
              then SetForecast (Some ''Prediksi hanya tersedia untuk bulan berjalan.'')
              else if income = 0
              then SetForecast (Some ''Tambahkan pemasukan bulan ini untuk melihat prediksi.'')
              else
                (let daysPassed = getDate tza today;
                     totalDaysInMonth = getDate tza (new_Date tza year (month + 1) 0);
                     totalExpensesSoFar = reduce_amounts filtered
                 in if totalExpensesSoFar = 0
                    then SetForecast
                      (Some ''Belum ada pengeluaran. Anda di jalur yang tepat untuk berhemat!'')
                    else GenerateContent
                      \<lparr>totalIncome = income, totalExpensesSoFar = totalExpensesSoFar,
                       daysPassed = daysPassed, totalDaysInMonth = totalDaysInMonth\<rparr>))
      | _ \<Rightarrow> SetForecast (Some ''Prediksi hanya tersedia untuk bulan berjalan.''))"

text \<open>The effect as the component wires it to the state and the selected month.\<close>

definition forecast_of :: "int \<Rightarrow> int \<Rightarrow> app_state \<Rightarrow> string \<Rightarrow> forecast_effect" where
  "forecast_of tza now st selectedMonth =
     fetchForecast tza now selectedMonth
       (filteredExpenses (allExpenses st) selectedMonth)
       (totalIncomeForMonth (fundHistory st) selectedMonth)"

section \<open>Notions of the specification\<close>

text \<open>
  The calendar rule for the number of days of month \<open>m\<close> (\<open>1\<close> for January) of year
  \<open>y\<close>, leap years included.
\<close>

definition calendar_days_in_month :: "int \<Rightarrow> int \<Rightarrow> int" where
  "calendar_days_in_month y m =
     (if m = 2 then (if leap_year y then 29 else 28)
      else if m = 4 \<or> m = 6 \<or> m = 9 \<or> m = 11 then 30 else 31)"

text \<open>A number written with exactly \<open>w\<close> decimal digits.\<close>

fun fixed_digits :: "nat \<Rightarrow> nat \<Rightarrow> string" where
  "fixed_digits 0 n = []"
| "fixed_digits (Suc w) n = fixed_digits w (n div 10) @ [digit_char (n mod 10)]"

text \<open>The year-month key \<open>YYYY-MM\<close> of month \<open>m\<close> (\<open>1\<close> for January) of year \<open>y\<close>.\<close>

definition period_key :: "int \<Rightarrow> int \<Rightarrow> string" where
  "period_key y m = fixed_digits 4 (nat y) @ ''-'' @ fixed_digits 2 (nat m)"

section \<open>Example states\<close>

text \<open>Two states used to run the component on concrete data.\<close>

definition june_state :: app_state where
  "june_state =
     \<lparr>archives = [\<lparr>transactions =
        [\<lparr>timestamp = 1706743800000, amount = 50000, desc = ''makan malam'', type = Remove,
          category = Some ''Makan''\<rparr>]\<rparr>],
      fundHistory =
        [\<lparr>timestamp = 1717207200000, amount = 1000000, desc = ''gaji'', type = Add\<rparr>,
         \<lparr>timestamp = 1717574400000, amount = 100000, desc = ''pulsa'', type = Remove\<rparr>],
      budgets = [],
      dailyExpenses =
        [\<lparr>timestamp = 1717574400000, amount = 200000, desc = ''pasar'', type = Remove,
          sourceCategory = None\<rparr>,
         \<lparr>timestamp = 1718870400000, amount = 250000, desc = ''listrik'', type = Remove,
          sourceCategory = Some ''Tagihan''\<rparr>]\<rparr>"

definition tidy_state :: app_state where
  "tidy_state =
     \<lparr>archives = [\<lparr>transactions =
        [\<lparr>timestamp = 1706743800000, amount = 50000, desc = ''makan malam'', type = Remove,
          category = Some ''Makan''\<rparr>,
         \<lparr>timestamp = 1706743800000, amount = 900000, desc = ''bonus'', type = Add,
          category = None\<rparr>]\<rparr>],
      fundHistory =
        [\<lparr>timestamp = 1717574400000, amount = 100000, desc = ''pulsa'', type = Remove\<rparr>],
      budgets = [\<lparr>name = ''Transport'', totalBudget = 400000, history =
        [\<lparr>timestamp = 1717574400000, amount = 15000, desc = ''angkot'', type = Remove\<rparr>]\<rparr>],
      dailyExpenses =
        [\<lparr>timestamp = 1717574400000, amount = 200000, desc = ''pasar'', type = Remove,
          sourceCategory = None\<rparr>,
         \<lparr>timestamp = 1718870400000, amount = 250000, desc = ''listrik'', type = Remove,
          sourceCategory = Some ''''\<rparr>]\<rparr>"

section \<open>Dictionaries and sums\<close>

lemma get_or_zero_Nil: "get_or_zero [] k = 0"
  by (simp add: get_or_zero_def)

lemma get_or_zero_update:
  "get_or_zero (AList.update k v d) k' = (if k' = k then v else get_or_zero d k')"
  by (simp add: get_or_zero_def update_conv')

lemma sum_values_update:
  "sum_list (map snd (AList.update k v d)) = sum_list (map snd d) - get_or_zero d k + v"
  by (induction d) (auto simp: get_or_zero_def)

lemma falsy_at_get_or_zero: "falsy_at d k \<Longrightarrow> get_or_zero d k = 0"
  by (simp add: falsy_at_def get_or_zero_def split: option.splits)

lemma get_or_zero_add_to:
  "get_or_zero (add_to d k a) k' = get_or_zero d k' + (if k' = k then a else 0)"
  by (simp add: add_to_def Let_def get_or_zero_update falsy_at_get_or_zero)

lemma sum_values_add_to:
  "sum_list (map snd (add_to d k a)) = sum_list (map snd d) + a"
  by (simp add: add_to_def Let_def sum_values_update get_or_zero_update falsy_at_get_or_zero)

lemma get_or_zero_foldl_add_to:
  "get_or_zero (foldl (\<lambda>d e. add_to d (key e) (val e)) d es) k =
     get_or_zero d k + sum_list (map val (filter (\<lambda>e. key e = k) es))"
  by (induction es arbitrary: d) (auto simp: get_or_zero_add_to)

lemma sum_values_foldl_add_to:
  "sum_list (map snd (foldl (\<lambda>d e. add_to d (key e) (val e)) d es)) =
     sum_list (map snd d) + sum_list (map val es)"
  by (induction es arbitrary: d) (auto simp: sum_values_add_to)

lemma foldl_plus_amount: "foldl (\<lambda>sum t. sum + amount t) a xs = a + sum_list (map amount xs)"
  by (induction xs arbitrary: a) auto

lemma reduce_amounts_sum: "reduce_amounts xs = sum_list (map amount xs)"
  by (simp add: reduce_amounts_def foldl_plus_amount)

lemma or_else_nonempty: "b \<noteq> [] \<Longrightarrow> or_else a b \<noteq> []"
  by (simp add: or_else_def split: option.splits)

subsection \<open>Objects that hold numbers\<close>

text \<open>
  No property name of \<open>Object.prototype\<close> contains a hyphen; so the keys of the daily totals
  are none of them.
\<close>

lemma dash_not_prototype_name: "CHR ''-'' \<in> set k \<Longrightarrow> k \<notin> set Object_prototype_names"
  by (auto simp: Object_prototype_names_def)

lemma not_prototype_name: "k \<notin> set Object_prototype_names \<Longrightarrow> k \<noteq> ''__proto__''"
  by (auto simp: Object_prototype_names_def)

lemma map_of_numeric: "map_of (numeric d) k = map_option Num (map_of d k)"
  by (induction d) (auto simp: numeric_def)

lemma get_property_numeric:
  "k \<notin> set Object_prototype_names \<Longrightarrow>
   get_property (numeric d) k = (case map_of d k of None \<Rightarrow> Undefined | Some n \<Rightarrow> Num n)"
  by (simp add: get_property_def map_of_numeric split: option.splits)

lemma update_numeric: "AList.update k (Num n) (numeric d) = numeric (AList.update k n d)"
  by (induction d) (auto simp: numeric_def)

text \<open>
  On a key that is no property name of \<open>Object.prototype\<close> the \<open>forEach\<close> body on the object
  is the one on the numeric dictionary.
\<close>

lemma accumulate_numeric:
  assumes "k \<notin> set Object_prototype_names"
  shows "accumulate (numeric d) k a = numeric (add_to d k a)"
proof (cases "map_of d k")
  case None
  with assms show ?thesis
    by (simp add: accumulate_def add_to_def Let_def get_property_numeric not_prototype_name
        set_property_def falsy_def falsy_at_def get_or_zero_def update_numeric js_plus_def
        update_conv')
next
  case (Some n)
  with assms show ?thesis
    by (simp add: accumulate_def add_to_def Let_def get_property_numeric not_prototype_name
        set_property_def falsy_def falsy_at_def get_or_zero_def update_numeric js_plus_def
        update_conv')
qed

lemma foldl_accumulate_numeric:
  "\<forall>e \<in> set es. key e \<notin> set Object_prototype_names \<Longrightarrow>
   foldl (\<lambda>d e. accumulate d (key e) (val e)) (numeric d) es
     = numeric (foldl (\<lambda>d e. add_to d (key e) (val e)) d es)"
  by (induction es arbitrary: d) (simp_all add: accumulate_numeric)

lemma or_zero_get_property_numeric:
  "k \<notin> set Object_prototype_names \<Longrightarrow>
   or_zero (get_property (numeric d) k) = Num (get_or_zero d k)"
  by (simp add: get_property_numeric or_zero_def falsy_def get_or_zero_def split: option.splits)

lemma mset_Object_entries: "mset (Object_entries d) = mset d"
proof -
  have "mset (filter P d) + mset (filter (\<lambda>x. \<not> P x) d) = mset d"
    for P :: "string \<times> js_value \<Rightarrow> bool"
    by (induction d) auto
  from this [of "\<lambda>(k, v). array_index k \<noteq> None"] show ?thesis
    by (simp add: Object_entries_def case_prod_beta)
qed

lemma mset_insert_by: "mset (insert_by cmp x ys) = add_mset x (mset ys)"
  by (induction ys) auto

lemma mset_sort_by: "mset (sort_by cmp xs) = mset xs"
  by (induction xs) (simp_all add: sort_by_def mset_insert_by)

section \<open>Ledger normalizer\<close>

text \<open>
  C2 (as amended). Every record of the ledger, read through the fallback
  \<open>category || 'Lain-lain'\<close> as the aggregator, the budget comparator and the detail query
  read it, has a non-empty category. In the ledger itself the category is present and
  non-empty whenever the archived debit transactions carry a non-empty category and the
  budgets that have history carry a non-empty name: the normalizer gives fund expenses the
  label \<open>Pengeluaran Umum\<close> and daily expenses their source category or the fallback
  \<open>Harian\<close>, but it passes archived transactions on as they are and tags budget history
  with the budget's name.
\<close>

theorem allExpenses_category:
  "(\<forall>e \<in> set (allExpenses st). resolved_category e \<noteq> [])
   \<and> ((\<forall>a \<in> set (archives st). \<forall>t \<in> set (transactions a).
          type t = Remove \<longrightarrow> (\<exists>c. category t = Some c \<and> c \<noteq> []))
       \<and> (\<forall>b \<in> set (budgets st). history b \<noteq> [] \<longrightarrow> name b \<noteq> [])
      \<longrightarrow> (\<forall>e \<in> set (allExpenses st). \<exists>c. category e = Some c \<and> c \<noteq> []))"
proof -
  have "resolved_category e \<noteq> []" for e
    by (simp add: resolved_category_def or_else_nonempty)
  moreover have "\<exists>c. category e = Some c \<and> c \<noteq> []"
    if "e \<in> set (from_fund fh) \<or> e \<in> set (from_daily ds)" for e fh ds
    using that by (auto simp: from_fund_def from_daily_def retag_def or_else_nonempty)
  moreover have "\<exists>c. category e = Some c \<and> c \<noteq> []"
    if "e \<in> set (from_archives (archives st))"
      "\<forall>a \<in> set (archives st). \<forall>t \<in> set (transactions a).
          type t = Remove \<longrightarrow> (\<exists>c. category t = Some c \<and> c \<noteq> [])" for e
    using that by (auto simp: from_archives_def)
  moreover have "\<exists>c. category e = Some c \<and> c \<noteq> []"
    if "e \<in> set (from_budgets (budgets st))"
      "\<forall>b \<in> set (budgets st). history b \<noteq> [] \<longrightarrow> name b \<noteq> []" for e
    using that by (auto simp: from_budgets_def retag_def)
  ultimately show ?thesis
    unfolding allExpenses_def set_append Un_iff by blast
qed

theorem allExpenses_category_witness:
  "map category (allExpenses tidy_state) =
     [Some ''Makan'', Some ''Pengeluaran Umum'', Some ''Transport'', Some ''Harian'',
      Some ''Harian'']
   \<and> list_all (\<lambda>e. \<exists>c. category e = Some c \<and> c \<noteq> []) (allExpenses tidy_state)"
proof -
  have m: "map category (allExpenses tidy_state) =
     [Some ''Makan'', Some ''Pengeluaran Umum'', Some ''Transport'', Some ''Harian'',
      Some ''Harian'']"
    by (simp add: allExpenses_def tidy_state_def from_archives_def from_fund_def
        from_budgets_def from_daily_def retag_def or_else_def)
  have "\<forall>a \<in> set (archives tidy_state). \<forall>t \<in> set (transactions a).
      type t = Remove \<longrightarrow> (\<exists>c. category t = Some c \<and> c \<noteq> [])"
    "\<forall>b \<in> set (budgets tidy_state). history b \<noteq> [] \<longrightarrow> name b \<noteq> []"
    by (simp_all add: tidy_state_def)
  with allExpenses_category [of tidy_state]
  have "\<forall>e \<in> set (allExpenses tidy_state). \<exists>c. category e = Some c \<and> c \<noteq> []"
    by blast
  with m show ?thesis
    by (simp add: list_all_iff)
qed

text \<open>
  The claim as stated fails: an archived debit transaction without a category and the
  history of a budget with an empty name reach the ledger with a missing and an empty
  category.
\<close>

theorem allExpenses_category_counterexample:
  "allExpenses
     \<lparr>archives = [\<lparr>transactions =
        [\<lparr>timestamp = 1706743800000, amount = 50000, desc = ''makan malam'', type = Remove,
          category = None\<rparr>]\<rparr>],
      fundHistory = [],
      budgets = [\<lparr>name = '''', totalBudget = 400000, history =
        [\<lparr>timestamp = 1717574400000, amount = 15000, desc = ''angkot'', type = Remove\<rparr>]\<rparr>],
      dailyExpenses = []\<rparr>
   = [\<lparr>timestamp = 1706743800000, amount = 50000, desc = ''makan malam'', type = Remove,
        category = None\<rparr>,
      \<lparr>timestamp = 1717574400000, amount = 15000, desc = ''angkot'', type = Remove,
        category = Some ''''\<rparr>]"
  by (simp add: allExpenses_def from_archives_def from_fund_def from_budgets_def
      from_daily_def retag_def)

section \<open>Categorical aggregator\<close>

text \<open>Every record of the ledger, and so of every filtered ledger, is a debit record.\<close>

lemma allExpenses_debit: "e \<in> set (allExpenses st) \<Longrightarrow> type e = Remove"
  by (auto simp: allExpenses_def from_archives_def from_fund_def from_budgets_def
      from_daily_def retag_def)

lemma filteredExpenses_subset: "set (filteredExpenses all selectedMonth) \<subseteq> set all"
  by (auto simp: filteredExpenses_def)

lemma filteredExpenses_debit:
  "filter (\<lambda>e. type e = Remove) (filteredExpenses (allExpenses st) selectedMonth)
     = filteredExpenses (allExpenses st) selectedMonth"
  using filteredExpenses_subset [of "allExpenses st" selectedMonth]
  by (auto simp: filter_id_conv dest: allExpenses_debit)

text \<open>
  As long as no record has a category that is a property name of \<open>Object.prototype\<close>, the
  dictionary of category totals is numeric, every entry of the pie carries a number, and the
  numbers add up to the sum of the amounts of the records.
\<close>

lemma expenseByCategory_numeric:
  assumes "\<forall>e \<in> set fe. resolved_category e \<notin> set Object_prototype_names"
  shows "expenseByCategory fe =
     numeric (foldl (\<lambda>d e. add_to d (resolved_category e) (amount e)) [] fe)"
  using foldl_accumulate_numeric [of fe resolved_category amount "[]"] assms
  by (simp add: expenseByCategory_def numeric_def)

lemma mset_pieChartData:
  "mset (pieChartData fe)
     = image_mset (\<lambda>(k, v). \<lparr>pname = k, pvalue = v\<rparr>) (mset (expenseByCategory fe))"
  by (simp add: pieChartData_def mset_sort_by mset_Object_entries)

lemma pieChartData_numeric:
  assumes "\<forall>e \<in> set fe. resolved_category e \<notin> set Object_prototype_names"
  shows "(\<forall>p \<in> set (pieChartData fe). \<exists>n. pvalue p = Num n)
     \<and> sum_list (map (\<lambda>p. the_number (pvalue p)) (pieChartData fe)) = sum_list (map amount fe)"
proof -
  let ?d = "foldl (\<lambda>d e. add_to d (resolved_category e) (amount e)) [] fe"
  have m: "mset (pieChartData fe)
      = image_mset (\<lambda>x. \<lparr>pname = fst x, pvalue = Num (snd x)\<rparr>) (mset ?d)"
    by (simp add: mset_pieChartData expenseByCategory_numeric [OF assms] numeric_def
        multiset.map_comp comp_def case_prod_beta)
  then have "set_mset (mset (pieChartData fe))
      = set_mset (image_mset (\<lambda>x. \<lparr>pname = fst x, pvalue = Num (snd x)\<rparr>) (mset ?d))"
    by simp
  then have nums: "\<forall>p \<in> set (pieChartData fe). \<exists>n. pvalue p = Num n"
    by auto
  have "sum_list (map (\<lambda>p. the_number (pvalue p)) (pieChartData fe))
      = sum_mset (image_mset (\<lambda>p. the_number (pvalue p)) (mset (pieChartData fe)))"
    by (simp add: sum_mset_sum_list flip: mset_map)
  also have "\<dots> = sum_mset (image_mset snd (mset ?d))"
    by (simp add: m multiset.map_comp comp_def case_prod_beta the_number_def)
  also have "\<dots> = sum_list (map snd ?d)"
    by (simp add: sum_mset_sum_list flip: mset_map)
  also have "\<dots> = sum_list (map amount fe)"
    by (simp add: sum_values_foldl_add_to)
  finally show ?thesis
    using nums by simp
qed

text \<open>
  C4. The dictionary of category totals is an object literal, and a category is free text.
  For a record whose category is \<open>__proto__\<close> the guard \<open>!d[k]\<close> reads the inherited
  prototype object, which is truthy, and the assignment of \<open>+=\<close> runs the inherited setter,
  which drops the string it is given: the object gets no own property. Of two filtered
  records, 20,000 under \<open>Makan\<close> and 50,000 under \<open>__proto__\<close>, the pie shows the single
  entry \<open>Makan\<close> with 20,000, while the filtered amounts add up to 70,000. Under
  \<open>toString\<close> the 50,000 become the text of the inherited function followed by \<open>50000\<close>.
\<close>

theorem pieChartData_loses_prototype_category:
  "pieChartData
     [\<lparr>timestamp = 1717574400000, amount = 20000, desc = ''makan siang'', type = Remove,
       category = Some ''Makan''\<rparr>,
      \<lparr>timestamp = 1718870400000, amount = 50000, desc = ''lain-lain'', type = Remove,
       category = Some ''__proto__''\<rparr>]
     = [\<lparr>pname = ''Makan'', pvalue = Num 20000\<rparr>]
   \<and> sum_list (map amount
       [\<lparr>timestamp = 1717574400000, amount = 20000, desc = ''makan siang'', type = Remove,
         category = Some ''Makan''\<rparr>,
        \<lparr>timestamp = 1718870400000, amount = 50000, desc = ''lain-lain'', type = Remove,
         category = Some ''__proto__''\<rparr>]) = 70000
   \<and> expenseByCategory
       [\<lparr>timestamp = 1718870400000, amount = 50000, desc = ''lain-lain'', type = Remove,
         category = Some ''toString''\<rparr>]
     = [(''toString'', Str ''function toString() { [native code] }50000'')]"
proof -
  have pie: "pieChartData
      [\<lparr>timestamp = 1717574400000, amount = 20000, desc = ''makan siang'', type = Remove,
        category = Some ''Makan''\<rparr>,
       \<lparr>timestamp = 1718870400000, amount = 50000, desc = ''lain-lain'', type = Remove,
        category = Some ''__proto__''\<rparr>]
      = [\<lparr>pname = ''Makan'', pvalue = Num 20000\<rparr>]"
    by (simp add: pieChartData_def expenseByCategory_def accumulate_def Let_def
        get_property_def set_property_def falsy_def js_plus_def Object_prototype_names_def
        resolved_category_def or_else_def Object_entries_def array_index_def digit_val_def
        sort_by_def)
  have str: "expenseByCategory
      [\<lparr>timestamp = 1718870400000, amount = 50000, desc = ''lain-lain'', type = Remove,
        category = Some ''toString''\<rparr>]
      = [(''toString'', Str (''function toString() { [native code] }'' @ String_of 50000))]"
    by (simp add: expenseByCategory_def accumulate_def Let_def get_property_def
        set_property_def falsy_def js_plus_def Object_prototype_names_def
        resolved_category_def or_else_def member_text_def)
  have "String_of 50000 = ''50000''"
    by (simp add: String_of_def digits.simps digit_char_def)
  with pie str show ?thesis
    by simp
qed

section \<open>Budget comparator\<close>

text \<open>
  As long as neither a category of a record nor the name of a budget is a property name of
  \<open>Object.prototype\<close>, there is one row per budget, in the order of the budget list, with
  the budget's name, its \<open>totalBudget\<close>, and the sum of the filtered amounts whose category
  is the budget's name, \<open>0\<close> when there is no such record.
\<close>

lemma budgetComparisonData_numeric:
  assumes "\<forall>e \<in> set fe. resolved_category e \<notin> set Object_prototype_names"
    and "\<forall>b \<in> set bs. name b \<notin> set Object_prototype_names"
  shows "budgetComparisonData fe bs =
     map (\<lambda>b. \<lparr>rname = name b, Dianggarkan = totalBudget b,
                Terpakai = Num (sum_list (map amount
                  (filter (\<lambda>e. resolved_category e = name b) fe)))\<rparr>) bs"
  using assms(2)
  by (simp add: budgetComparisonData_def Let_def expenseByCategory_numeric [OF assms(1)]
      or_zero_get_property_numeric get_or_zero_foldl_add_to get_or_zero_Nil)

lemma length_budgetComparisonData: "length (budgetComparisonData fe bs) = length bs"
  by (simp add: budgetComparisonData_def Let_def)

text \<open>
  C6. The actual amount of a row is \<open>expenseByCategory[budget.name] || 0\<close> on an object
  literal, and the name of a budget is free text. For a budget named \<open>toString\<close> with no
  spend the read yields the inherited function, which is truthy, so the row carries that
  function and not \<open>0\<close>; once a record of 50,000 has that category the row carries the
  string built from the text of the function. The row of the budget \<open>Makan\<close> beside it is
  the sum 20,000.
\<close>

theorem budgetComparisonData_inherited_member:
  "budgetComparisonData
     [\<lparr>timestamp = 1717574400000, amount = 20000, desc = ''makan siang'', type = Remove,
       category = Some ''Makan''\<rparr>]
     [\<lparr>name = ''Makan'', totalBudget = 500000, history = []\<rparr>,
      \<lparr>name = ''toString'', totalBudget = 400000, history = []\<rparr>]
     = [\<lparr>rname = ''Makan'', Dianggarkan = 500000, Terpakai = Num 20000\<rparr>,
        \<lparr>rname = ''toString'', Dianggarkan = 400000, Terpakai = Member ''toString''\<rparr>]
   \<and> budgetComparisonData
     [\<lparr>timestamp = 1718870400000, amount = 50000, desc = ''lain-lain'', type = Remove,
       category = Some ''toString''\<rparr>]
     [\<lparr>name = ''toString'', totalBudget = 400000, history = []\<rparr>]
     = [\<lparr>rname = ''toString'', Dianggarkan = 400000,
         Terpakai = Str ''function toString() { [native code] }50000''\<rparr>]"
proof -
  have none: "budgetComparisonData
      [\<lparr>timestamp = 1717574400000, amount = 20000, desc = ''makan siang'', type = Remove,
        category = Some ''Makan''\<rparr>]
      [\<lparr>name = ''Makan'', totalBudget = 500000, history = []\<rparr>,
       \<lparr>name = ''toString'', totalBudget = 400000, history = []\<rparr>]
      = [\<lparr>rname = ''Makan'', Dianggarkan = 500000, Terpakai = Num 20000\<rparr>,
         \<lparr>rname = ''toString'', Dianggarkan = 400000, Terpakai = Member ''toString''\<rparr>]"
    by (simp add: budgetComparisonData_def expenseByCategory_def accumulate_def Let_def
        get_property_def set_property_def falsy_def js_plus_def Object_prototype_names_def
        resolved_category_def or_else_def or_zero_def)
  have some: "budgetComparisonData
      [\<lparr>timestamp = 1718870400000, amount = 50000, desc = ''lain-lain'', type = Remove,
        category = Some ''toString''\<rparr>]
      [\<lparr>name = ''toString'', totalBudget = 400000, history = []\<rparr>]
      = [\<lparr>rname = ''toString'', Dianggarkan = 400000,
          Terpakai = Str (''function toString() { [native code] }'' @ String_of 50000)\<rparr>]"
    by (simp add: budgetComparisonData_def expenseByCategory_def accumulate_def Let_def
        get_property_def set_property_def falsy_def js_plus_def Object_prototype_names_def
        resolved_category_def or_else_def or_zero_def member_text_def)
  have "String_of 50000 = ''50000''"
    by (simp add: String_of_def digits.simps digit_char_def)
  with none some show ?thesis
    by simp
qed

section \<open>Click-to-detail query\<close>

text \<open>The guard: without a name, or with an empty one, no detail is set.\<close>

lemma handlePieClick_guard: "handlePieClick None fe = None" "handlePieClick (Some []) fe = None"
  by (simp_all add: handlePieClick_def)

text \<open>
  C8. For every category name (a non-empty string: the empty string stands for a missing
  category) and every list of filtered expenses, \<open>handlePieClick\<close> sets the detail to that
  name with exactly the filtered records whose category, read through the fallback, is that
  name, ordered by amount from the largest down; when no record matches, the list is empty.
\<close>

theorem handlePieClick_detail:
  assumes "c \<noteq> []"
  shows "\<exists>ts. handlePieClick (Some c) fe = Some \<lparr>dcategory = c, dtransactions = ts\<rparr>
     \<and> mset ts = filter_mset (\<lambda>e. resolved_category e = c) (mset fe)
     \<and> sorted_wrt (\<lambda>a b. amount b \<le> amount a) ts
     \<and> ((\<forall>e \<in> set fe. resolved_category e \<noteq> c) \<longrightarrow> ts = [])"
proof -
  let ?ts = "sort_key (\<lambda>e. - amount e) (filter (\<lambda>e. resolved_category e = c) fe)"
  have "sorted (map (\<lambda>e. - amount e) ?ts)"
    by simp
  then have "sorted_wrt (\<lambda>a b. amount b \<le> amount a) ?ts"
    by (simp add: sorted_map)
  moreover have "(\<forall>e \<in> set fe. resolved_category e \<noteq> c) \<longrightarrow> ?ts = []"
    by (auto simp: filter_empty_conv)
  ultimately show ?thesis
    using assms by (intro exI [of _ ?ts]) (simp add: handlePieClick_def)
qed

theorem handlePieClick_detail_witness:
  "handlePieClick (Some ''Hiburan'')
     [\<lparr>timestamp = 1717574400000, amount = 10000, desc = ''bakso'', type = Remove,
        category = Some ''Makan''\<rparr>,
      \<lparr>timestamp = 1717574400000, amount = 7000, desc = ''parkir'', type = Remove,
        category = None\<rparr>,
      \<lparr>timestamp = 1718870400000, amount = 25000, desc = ''nasi padang'', type = Remove,
        category = Some ''Makan''\<rparr>]
   = Some \<lparr>dcategory = ''Hiburan'', dtransactions = []\<rparr>
   \<and> handlePieClick (Some ''Makan'')
     [\<lparr>timestamp = 1717574400000, amount = 10000, desc = ''bakso'', type = Remove,
        category = Some ''Makan''\<rparr>,
      \<lparr>timestamp = 1717574400000, amount = 7000, desc = ''parkir'', type = Remove,
        category = None\<rparr>,
      \<lparr>timestamp = 1718870400000, amount = 25000, desc = ''nasi padang'', type = Remove,
        category = Some ''Makan''\<rparr>]
   = Some \<lparr>dcategory = ''Makan'', dtransactions =
       [\<lparr>timestamp = 1718870400000, amount = 25000, desc = ''nasi padang'', type = Remove,
          category = Some ''Makan''\<rparr>,
        \<lparr>timestamp = 1717574400000, amount = 10000, desc = ''bakso'', type = Remove,
          category = Some ''Makan''\<rparr>]\<rparr>"
proof -
  let ?fe = "[\<lparr>timestamp = 1717574400000, amount = 10000, desc = ''bakso'', type = Remove,
        category = Some ''Makan''\<rparr>,
      \<lparr>timestamp = 1717574400000, amount = 7000, desc = ''parkir'', type = Remove,
        category = None\<rparr>,
      \<lparr>timestamp = 1718870400000, amount = 25000, desc = ''nasi padang'', type = Remove,
        category = Some ''Makan''\<rparr>]"
  have "''Hiburan'' \<noteq> []"
    by simp
  from handlePieClick_detail [OF this, of ?fe]
  obtain ts where ts: "handlePieClick (Some ''Hiburan'') ?fe
      = Some \<lparr>dcategory = ''Hiburan'', dtransactions = ts\<rparr>"
    "(\<forall>e \<in> set ?fe. resolved_category e \<noteq> ''Hiburan'') \<longrightarrow> ts = []"
    by blast
  have "\<forall>e \<in> set ?fe. resolved_category e \<noteq> ''Hiburan''"
    by (simp add: resolved_category_def or_else_def)
  with ts have "handlePieClick (Some ''Hiburan'') ?fe
      = Some \<lparr>dcategory = ''Hiburan'', dtransactions = []\<rparr>"
    by simp
  moreover have "handlePieClick (Some ''Makan'') ?fe
      = Some \<lparr>dcategory = ''Makan'', dtransactions =
       [\<lparr>timestamp = 1718870400000, amount = 25000, desc = ''nasi padang'', type = Remove,
          category = Some ''Makan''\<rparr>,
        \<lparr>timestamp = 1717574400000, amount = 10000, desc = ''bakso'', type = Remove,
          category = Some ''Makan''\<rparr>]\<rparr>"
    by (simp add: handlePieClick_def resolved_category_def or_else_def)
  ultimately show ?thesis
    by (rule conjI)
qed

section \<open>Calendar arithmetic\<close>

lemma div_succ:
  fixes x k :: int
  assumes "1 < k"
  shows "(x + 1) div k = x div k + (if (x + 1) mod k = 0 then 1 else 0)"
proof -
  let ?r = "x mod k"
  have r: "0 \<le> ?r" "?r < k"
    using assms by simp_all
  have m: "(x + 1) mod k = (?r + 1) mod k"
    by (simp add: mod_add_left_eq)
  have d: "(x + 1) div k = x div k + (?r + 1) div k"
    using div_add1_eq [of x 1 k] assms by simp
  show ?thesis
  proof (cases "?r + 1 < k")
    case True
    then have "(?r + 1) div k = 0" "(?r + 1) mod k = ?r + 1"
      using r by simp_all
    then show ?thesis
      using m d r by simp
  next
    case False
    then have "?r + 1 = k"
      using r by simp
    then show ?thesis
      using m d assms by simp
  qed
qed

lemma div_step:
  fixes y c k :: int
  assumes "1 < k" "k dvd c"
  shows "(y + 1 - (c + 1)) div k = (y - (c + 1)) div k + (if y mod k = 0 then 1 else 0)"
proof -
  have "(y - c) mod k = 0 \<longleftrightarrow> y mod k = 0"
    using assms(2) by (simp add: mod_eq_0_iff_dvd dvd_diff_left_iff)
  moreover have "y - (c + 1) + 1 = y - c" "y + 1 - (c + 1) = y - c"
    by simp_all
  ultimately show ?thesis
    using div_succ [OF assms(1), of "y - (c + 1)"] by simp
qed

lemma DayFromYear_step: "DayFromYear (y + 1) = DayFromYear y + DaysInYear y"
proof -
  have a: "(y + 1 - 1969) div 4 = (y - 1969) div 4 + (if y mod 4 = 0 then 1 else 0)"
    using div_step [of 4 1968 y] by simp
  have b: "(y + 1 - 1901) div 100 = (y - 1901) div 100 + (if y mod 100 = 0 then 1 else 0)"
    using div_step [of 100 1900 y] by simp
  have c: "(y + 1 - 1601) div 400 = (y - 1601) div 400 + (if y mod 400 = 0 then 1 else 0)"
    using div_step [of 400 1600 y] by simp
  have m: "y mod 400 = 0 \<Longrightarrow> y mod 100 = 0" "y mod 100 = 0 \<Longrightarrow> y mod 4 = 0"
  proof -
    have "(100::int) dvd 400" "(4::int) dvd 100"
      by simp_all
    then show "y mod 400 = 0 \<Longrightarrow> y mod 100 = 0" "y mod 100 = 0 \<Longrightarrow> y mod 4 = 0"
      by (auto simp: mod_eq_0_iff_dvd intro: dvd_trans)
  qed
  define p q r where "p = (y - 1969) div 4" and "q = (y - 1901) div 100"
    and "r = (y - 1601) div 400"
  define l4 l100 l400 where "l4 = (y mod 4 = 0)" and "l100 = (y mod 100 = 0)"
    and "l400 = (y mod 400 = 0)"
  have "DayFromYear (y + 1) = 365 * (y + 1 - 1970) + (p + (if l4 then 1 else 0))
      - (q + (if l100 then 1 else 0)) + (r + (if l400 then 1 else 0))"
    by (simp only: DayFromYear_def a b c p_def q_def r_def l4_def l100_def l400_def)
  moreover have "DayFromYear y = 365 * (y - 1970) + p - q + r"
    by (simp only: DayFromYear_def p_def q_def r_def)
  moreover have "DaysInYear y = (if l4 \<and> (\<not> l100 \<or> l400) then 366 else 365)"
    by (simp only: DaysInYear_def leap_year_def l4_def l100_def l400_def)
  moreover have "l400 \<Longrightarrow> l100" "l100 \<Longrightarrow> l4"
    using m by (simp_all only: l4_def l100_def l400_def)
  ultimately show ?thesis
    by (cases l4; cases l100; cases l400) simp_all
qed

lemma DaysInYear_bounds: "365 \<le> DaysInYear y" "DaysInYear y \<le> 366"
  by (simp_all add: DaysInYear_def)

lemma DayFromYear_less_succ: "DayFromYear y < DayFromYear (y + 1)"
  using DaysInYear_bounds(1) [of y] by (simp add: DayFromYear_step)

lemma DayFromYear_mono: "y \<le> z \<Longrightarrow> DayFromYear y \<le> DayFromYear z"
proof (induction z rule: int_ge_induct)
  case base
  show ?case by simp
next
  case (step i)
  then show ?case
    using DayFromYear_less_succ [of i] by simp
qed

lemma DayFromYear_strict_mono: "y < z \<Longrightarrow> DayFromYear y < DayFromYear z"
  using DayFromYear_mono [of "y + 1" z] DayFromYear_less_succ [of y] by simp

lemma DayFromYear_1970: "DayFromYear 1970 = 0"
  by (simp add: DayFromYear_def)

lemma DayFromYear_upper_after: "1970 \<le> n \<Longrightarrow> DayFromYear n \<le> 366 * (n - 1970)"
proof (induction n rule: int_ge_induct)
  case base
  show ?case by (simp add: DayFromYear_1970)
next
  case (step i)
  then show ?case
    using DaysInYear_bounds(2) [of i] by (simp add: DayFromYear_step)
qed

lemma DayFromYear_upper_before: "n \<le> 1970 \<Longrightarrow> DayFromYear n \<le> 365 * (n - 1970)"
proof (induction n rule: int_le_induct)
  case base
  show ?case by (simp add: DayFromYear_1970)
next
  case (step i)
  have "DayFromYear i = DayFromYear (i - 1) + DaysInYear (i - 1)"
    using DayFromYear_step [of "i - 1"] by simp
  with step show ?case
    using DaysInYear_bounds(1) [of "i - 1"] by simp
qed

lemma year_search_eq:
  "y0 \<le> Y \<Longrightarrow> DayFromYear Y \<le> d \<Longrightarrow> d < DayFromYear (Y + 1) \<Longrightarrow> year_search d y0 = Y"
proof (induction "nat (Y - y0)" arbitrary: y0)
  case 0
  then have "y0 = Y" by simp
  with 0 show ?case
    by (simp add: year_search.simps [of d Y])
next
  case (Suc k)
  then have lt: "y0 < Y" by simp
  then have "DayFromYear (y0 + 1) \<le> DayFromYear Y"
    by (intro DayFromYear_mono) simp
  with Suc.prems have "DayFromYear (y0 + 1) \<le> d" by simp
  then have "year_search d y0 = year_search d (y0 + 1)"
    by (simp add: year_search.simps [of d y0])
  also have "\<dots> = Y"
    using Suc lt by (intro Suc.hyps(1)) simp_all
  finally show ?case .
qed

lemma year_search_spec:
  "DayFromYear y0 \<le> d \<Longrightarrow>
     DayFromYear (year_search d y0) \<le> d \<and> d < DayFromYear (year_search d y0 + 1)"
proof (induction d y0 rule: year_search.induct)
  case (1 d y)
  show ?case
  proof (cases "DayFromYear (y + 1) \<le> d")
    case True
    with 1 show ?thesis
      by (simp add: year_search.simps [of d y])
  next
    case False
    with 1 show ?thesis
      by (simp add: year_search.simps [of d y])
  qed
qed

lemma year_guess_le: "DayFromYear (year_guess d) \<le> d"
proof (cases "0 \<le> d")
  case True
  define k where "k = d div 366"
  have k: "0 \<le> k" "366 * k \<le> d"
  proof -
    show "0 \<le> k" using True by (simp add: k_def pos_imp_zdiv_nonneg_iff)
    have "366 * (d div 366) + d mod 366 = d" by simp
    moreover have "0 \<le> d mod 366" by simp
    ultimately show "366 * k \<le> d" unfolding k_def by linarith
  qed
  have "DayFromYear (1970 + k) \<le> 366 * k"
    using DayFromYear_upper_after [of "1970 + k"] k(1) by simp
  with k show ?thesis
    using True by (simp add: year_guess_def k_def)
next
  case False
  define k where "k = d div 365"
  have k: "k \<le> 0" "365 * k \<le> d"
  proof -
    have "d div 365 \<le> 0 div 365"
      using False by (intro zdiv_mono1) simp_all
    then show "k \<le> 0" by (simp add: k_def)
    have "365 * (d div 365) + d mod 365 = d" by simp
    moreover have "0 \<le> d mod 365" by simp
    ultimately show "365 * k \<le> d" unfolding k_def by linarith
  qed
  have "DayFromYear (1970 + k) \<le> 365 * k"
    using DayFromYear_upper_before [of "1970 + k"] k(1) by simp
  with k show ?thesis
    using False by (simp add: year_guess_def k_def)
qed

lemma YearFromDay_spec:
  "DayFromYear (YearFromDay d) \<le> d" "d < DayFromYear (YearFromDay d + 1)"
  using year_search_spec [OF year_guess_le, of d] by (simp_all add: YearFromDay_def)

lemma YearFromDay_eq:
  assumes "DayFromYear Y \<le> d" "d < DayFromYear (Y + 1)"
  shows "YearFromDay d = Y"
proof (rule ccontr)
  assume ne: "YearFromDay d \<noteq> Y"
  show False
  proof (cases "YearFromDay d < Y")
    case True
    then have "DayFromYear (YearFromDay d + 1) \<le> DayFromYear Y"
      by (intro DayFromYear_mono) simp
    with assms(1) YearFromDay_spec(2) [of d] show False
      by simp
  next
    case False
    with ne have "DayFromYear (Y + 1) \<le> DayFromYear (YearFromDay d)"
      by (intro DayFromYear_mono) simp
    with assms(2) YearFromDay_spec(1) [of d] show False
      by simp
  qed
qed

lemma Day_MakeDate: "Day (MakeDate d 0) = d"
  by (simp add: Day_def MakeDate_def msPerDay_def)

lemma DayWithinYear_bounds:
  "0 \<le> DayWithinYear t" "DayWithinYear t < DaysInYear (YearFromTime t)"
  using YearFromDay_spec [of "Day t"] DayFromYear_step [of "YearFromTime t"]
  by (simp_all add: DayWithinYear_def YearFromTime_def)

lemma MonthFromTime_range: "0 \<le> MonthFromTime t" "MonthFromTime t \<le> 11"
  by (simp_all add: MonthFromTime_def Let_def)

lemma month_cases:
  fixes m :: int
  assumes "0 \<le> m" "m \<le> 11"
  obtains "m = 0" | "m = 1" | "m = 2" | "m = 3" | "m = 4" | "m = 5" | "m = 6" | "m = 7"
    | "m = 8" | "m = 9" | "m = 10" | "m = 11"
proof -
  have "m = 0 \<or> m = 1 \<or> m = 2 \<or> m = 3 \<or> m = 4 \<or> m = 5 \<or> m = 6 \<or> m = 7
      \<or> m = 8 \<or> m = 9 \<or> m = 10 \<or> m = 11"
    using assms by presburger
  then show thesis
    using that by blast
qed

lemma month_start_simps:
  "month_start l 0 = 0" "month_start l 1 = 31"
  "month_start l 2 = 59 + (if l then 1 else 0)" "month_start l 3 = 90 + (if l then 1 else 0)"
  "month_start l 4 = 120 + (if l then 1 else 0)" "month_start l 5 = 151 + (if l then 1 else 0)"
  "month_start l 6 = 181 + (if l then 1 else 0)" "month_start l 7 = 212 + (if l then 1 else 0)"
  "month_start l 8 = 243 + (if l then 1 else 0)" "month_start l 9 = 273 + (if l then 1 else 0)"
  "month_start l 10 = 304 + (if l then 1 else 0)" "month_start l 11 = 334 + (if l then 1 else 0)"
  by (simp_all add: month_start_def)

text \<open>A day given by year, month and date is read back as that year, month and date.\<close>

lemma civil_day:
  assumes m: "0 \<le> m" "m \<le> 11"
    and dt: "1 \<le> dt" "dt \<le> calendar_days_in_month Y (m + 1)"
    and t: "Day t = DayFromYear Y + month_start (leap_year Y) m + dt - 1"
  shows "YearFromTime t = Y \<and> MonthFromTime t = m \<and> DateFromTime t = dt"
proof -
  define w where "w = month_start (leap_year Y) m + dt - 1"
  have w: "0 \<le> w" "w < DaysInYear Y"
    using m dt unfolding w_def
    by (cases rule: month_cases [of m];
        simp add: month_start_simps calendar_days_in_month_def DaysInYear_def split: if_splits)+
  have "DayFromYear Y \<le> Day t" "Day t < DayFromYear (Y + 1)"
    using w t by (simp_all add: w_def DayFromYear_step)
  then have Y: "YearFromTime t = Y"
    by (simp add: YearFromTime_def YearFromDay_eq)
  have dw: "DayWithinYear t = w"
    by (simp add: DayWithinYear_def Y t w_def)
  have mo: "MonthFromTime t = m"
    using m dt unfolding MonthFromTime_def InLeapYear_def Y dw w_def Let_def
    by (cases rule: month_cases [of m];
        simp add: month_start_simps calendar_days_in_month_def split: if_splits)
  have "DateFromTime t = dt"
    by (simp add: DateFromTime_def InLeapYear_def Y dw mo w_def)
  with Y mo show ?thesis
    by simp
qed

section \<open>Decimal strings\<close>

lemma digit_cases:
  fixes k :: nat
  assumes "k < 10"
  obtains "k = 0" | "k = 1" | "k = 2" | "k = 3" | "k = 4" | "k = 5" | "k = 6" | "k = 7"
    | "k = 8" | "k = 9"
proof -
  have "k = 0 \<or> k = 1 \<or> k = 2 \<or> k = 3 \<or> k = 4 \<or> k = 5 \<or> k = 6 \<or> k = 7 \<or> k = 8 \<or> k = 9"
    using assms by presburger
  then show thesis
    using that by blast
qed

lemma of_char_digit_char: "k < 10 \<Longrightarrow> of_char (digit_char k) = 48 + k"
  by (cases rule: digit_cases [of k]) (simp_all add: digit_char_def)

lemma digit_val_digit_char: "k < 10 \<Longrightarrow> digit_val (digit_char k) = Some k"
  by (simp add: digit_val_def of_char_digit_char)

lemma digit_char_less: "i < 10 \<Longrightarrow> j < 10 \<Longrightarrow> digit_char i < digit_char j \<longleftrightarrow> i < j"
  by (simp add: less_char_def of_char_digit_char)

lemma digit_char_inj: "i < 10 \<Longrightarrow> j < 10 \<Longrightarrow> digit_char i = digit_char j \<longleftrightarrow> i = j"
  by (metis add_left_cancel of_char_digit_char)

lemma digit_char_not_sign: "k < 10 \<Longrightarrow> digit_char k \<noteq> CHR ''-'' \<and> digit_char k \<noteq> CHR ''+''"
  by (cases rule: digit_cases [of k]) (simp_all add: digit_char_def)

lemma length_fixed_digits: "length (fixed_digits w n) = w"
  by (induction w arbitrary: n) auto

lemma fixed_digits_zero: "fixed_digits w 0 = replicate w CHR ''0''"
  by (induction w) (auto simp: digit_char_def replicate_append_same)

lemma digits_fixed: "n < 10 ^ w \<Longrightarrow> 0 < w \<Longrightarrow> padStart w CHR ''0'' (digits n) = fixed_digits w n"
proof (induction n arbitrary: w rule: digits.induct)
  case (1 n)
  obtain v where w: "w = Suc v"
    using 1(3) by (cases w) auto
  show ?case
  proof (cases "n < 10")
    case True
    then have "fixed_digits v (n div 10) = replicate v CHR ''0''"
      by (simp add: fixed_digits_zero)
    with True show ?thesis
      by (simp add: w digits.simps [of n] padStart_def)
  next
    case False
    then have v: "0 < v"
      using 1(2) w by (cases v) auto
    have lt: "n div 10 < 10 ^ v"
      using 1(2) w by (simp add: less_mult_imp_div_less mult.commute)
    have IH: "padStart v CHR ''0'' (digits (n div 10)) = fixed_digits v (n div 10)"
      using 1(1) [OF False lt v] .
    have len: "length (digits (n div 10)) \<le> v"
      using arg_cong [OF IH, of length]
      by (simp add: padStart_def length_fixed_digits) 
    show ?thesis
      using False IH len by (simp add: w digits.simps [of n] padStart_def Suc_diff_le)
  qed
qed

lemma divmod10:
  fixes a b :: nat
  shows divmod10_eq: "a = b \<longleftrightarrow> a div 10 = b div 10 \<and> a mod 10 = b mod 10"
    and divmod10_less:
      "a < b \<longleftrightarrow> a div 10 < b div 10 \<or> (a div 10 = b div 10 \<and> a mod 10 < b mod 10)"
proof -
  define qa ra qb rb where "qa = a div 10" and "ra = a mod 10" and "qb = b div 10"
    and "rb = b mod 10"
  have a: "a = 10 * qa + ra" "ra < 10" and b: "b = 10 * qb + rb" "rb < 10"
    by (simp_all add: qa_def ra_def qb_def rb_def)
  have "a = b \<longleftrightarrow> qa = qb \<and> ra = rb"
    unfolding a(1) b(1) using a(2) b(2) by arith
  then show "a = b \<longleftrightarrow> a div 10 = b div 10 \<and> a mod 10 = b mod 10"
    by (simp only: qa_def ra_def qb_def rb_def)
  have "a < b \<longleftrightarrow> qa < qb \<or> (qa = qb \<and> ra < rb)"
    unfolding a(1) b(1) using a(2) b(2) by arith
  then show "a < b \<longleftrightarrow> a div 10 < b div 10 \<or> (a div 10 = b div 10 \<and> a mod 10 < b mod 10)"
    by (simp only: qa_def ra_def qb_def rb_def)
qed

lemma fixed_digits_inj:
  "a < 10 ^ w \<Longrightarrow> b < 10 ^ w \<Longrightarrow> fixed_digits w a = fixed_digits w b \<longleftrightarrow> a = b"
proof (induction w arbitrary: a b)
  case 0
  then show ?case by simp
next
  case (Suc w)
  have lt: "a div 10 < 10 ^ w" "b div 10 < 10 ^ w"
    using Suc.prems by (simp_all add: less_mult_imp_div_less mult.commute)
  have "fixed_digits (Suc w) a = fixed_digits (Suc w) b
      \<longleftrightarrow> a div 10 = b div 10 \<and> a mod 10 = b mod 10"
    using Suc.IH [OF lt] by (simp add: length_fixed_digits digit_char_inj)
  also have "\<dots> \<longleftrightarrow> a = b"
    using divmod10_eq [of a b] by simp
  finally show ?case .
qed

lemma append_less_same_length:
  fixes a b :: "'a::linorder list"
  assumes "length a = length b"
  shows "a @ r < b @ s \<longleftrightarrow> a < b \<or> (a = b \<and> r < s)"
  using assms by (induction a b rule: list_induct2) auto

lemma fixed_digits_less:
  "a < 10 ^ w \<Longrightarrow> b < 10 ^ w \<Longrightarrow> fixed_digits w a < fixed_digits w b \<longleftrightarrow> a < b"
proof (induction w arbitrary: a b)
  case 0
  then show ?case by simp
next
  case (Suc w)
  have lt: "a div 10 < 10 ^ w" "b div 10 < 10 ^ w"
    using Suc.prems by (simp_all add: less_mult_imp_div_less mult.commute)
  have "fixed_digits (Suc w) a < fixed_digits (Suc w) b
      \<longleftrightarrow> a div 10 < b div 10 \<or> (a div 10 = b div 10 \<and> a mod 10 < b mod 10)"
    using Suc.IH [OF lt] fixed_digits_inj [OF lt]
    by (simp add: append_less_same_length length_fixed_digits digit_char_less)
  also have "\<dots> \<longleftrightarrow> a < b"
    using divmod10_less [of a b] by simp
  finally show ?case .
qed

lemma parse_digits_append:
  "parse_digits acc (xs @ ys) =
     (case parse_digits acc xs of None \<Rightarrow> None | Some a \<Rightarrow> parse_digits a ys)"
  by (induction xs arbitrary: acc) (auto split: option.splits)

lemma parse_fixed_digits: "parse_digits acc (fixed_digits w n) = Some (acc * 10 ^ w + n mod 10 ^ w)"
proof (induction w arbitrary: n)
  case 0
  show ?case by simp
next
  case (Suc w)
  have "n mod 10 ^ Suc w = 10 * (n div 10 mod 10 ^ w) + n mod 10"
    by (simp add: mod_mult2_eq)
  then show ?case
    by (simp add: parse_digits_append Suc digit_val_digit_char algebra_simps)
qed

lemma set_fixed_digits: "set (fixed_digits w n) \<subseteq> digit_char ` {..<10}"
proof (induction w arbitrary: n)
  case 0
  show ?case by simp
next
  case (Suc w)
  have "n mod 10 \<in> {..<10}" by simp
  then have "digit_char (n mod 10) \<in> digit_char ` {..<10}"
    by (rule imageI)
  with Suc [of "n div 10"] show ?case
    by simp
qed

lemma hd_fixed_digits: "0 < w \<Longrightarrow> \<exists>k<10. hd (fixed_digits w n) = digit_char k"
proof -
  assume "0 < w"
  then have "fixed_digits w n \<noteq> []"
    using length_fixed_digits [of w n] by auto
  then have "hd (fixed_digits w n) \<in> set (fixed_digits w n)"
    by simp
  with set_fixed_digits [of w n] show ?thesis
    by auto
qed

lemma Number_fixed_digits:
  assumes "0 < w" "n < 10 ^ w"
  shows "Number (fixed_digits w n) = Some (int n)"
proof -
  obtain c cs where s: "fixed_digits w n = c # cs"
    using assms(1) length_fixed_digits [of w n] by (cases "fixed_digits w n") auto
  obtain k where "k < 10" "c = digit_char k"
    using hd_fixed_digits [OF assms(1), of n] s by auto
  then have "c \<noteq> CHR ''-''" "c \<noteq> CHR ''+''"
    using digit_char_not_sign by auto
  then have "Number (fixed_digits w n) = map_option int (parse_digits 0 (fixed_digits w n))"
    by (simp add: Number_def s)
  then show ?thesis
    using assms(2) by (simp add: parse_fixed_digits)
qed

lemma fixed_digits_2:
  "fixed_digits 2 n = [digit_char (n div 10 mod 10), digit_char (n mod 10)]"
proof -
  have "(2 :: nat) = Suc (Suc 0)"
    by simp
  then show ?thesis
    by (simp only: fixed_digits.simps append.simps)
qed

lemma fixed_digits_4:
  "fixed_digits 4 n = [digit_char (n div 10 div 10 div 10 mod 10),
     digit_char (n div 10 div 10 mod 10), digit_char (n div 10 mod 10), digit_char (n mod 10)]"
proof -
  have "(4 :: nat) = Suc (Suc (Suc (Suc 0)))"
    by simp
  then show ?thesis
    by (simp only: fixed_digits.simps append.simps)
qed

section \<open>Period keys\<close>

lemma iso_year_fixed: "0 \<le> y \<Longrightarrow> y \<le> 9999 \<Longrightarrow> iso_year y = fixed_digits 4 (nat y)"
  by (simp add: iso_year_def digits_fixed)

lemma pad2_fixed: "0 \<le> i \<Longrightarrow> i \<le> 99 \<Longrightarrow> pad2 i = fixed_digits 2 (nat i)"
  by (simp add: pad2_def String_of_def digits_fixed)

lemma length_period_key: "length (period_key y m) = 7"
  by (simp add: period_key_def length_fixed_digits)

lemma period_key_not_all: "period_key y m \<noteq> ''all''"
  using length_period_key [of y m] by auto

lemma month_key_period_key:
  assumes "0 \<le> YearFromTime t" "YearFromTime t \<le> 9999"
  shows "month_key t = period_key (YearFromTime t) (MonthFromTime t + 1)"
proof -
  have "pad2 (MonthFromTime t + 1) = fixed_digits 2 (nat (MonthFromTime t + 1))"
    using MonthFromTime_range [of t] by (intro pad2_fixed) simp_all
  then show ?thesis
    using assms
    by (simp add: month_key_def slice_def toISOString_def iso_year_fixed period_key_def
        length_fixed_digits)
qed

lemma Number_period_key:
  assumes "0 \<le> y" "y \<le> 9999" "0 \<le> m" "m \<le> 99"
  shows "Number (slice 0 4 (period_key y m)) = Some y"
    and "Number (slice 5 7 (period_key y m)) = Some m"
proof -
  have "slice 0 4 (period_key y m) = fixed_digits 4 (nat y)"
    by (simp add: slice_def period_key_def length_fixed_digits)
  then show "Number (slice 0 4 (period_key y m)) = Some y"
    using assms by (simp add: Number_fixed_digits)
  have "slice 5 7 (period_key y m) = fixed_digits 2 (nat m)"
    by (simp add: slice_def period_key_def length_fixed_digits)
  then show "Number (slice 5 7 (period_key y m)) = Some m"
    using assms by (simp add: Number_fixed_digits)
qed

lemma startsWith_period_key:
  "startsWith (toISOString t) (period_key y m) \<longleftrightarrow> month_key t = period_key y m"
  by (simp add: startsWith_def month_key_def slice_def length_period_key)

lemma filteredExpenses_period_key:
  "filteredExpenses all (period_key y m) =
     filter (\<lambda>e. month_key (timestamp e) = period_key y m) all"
  by (simp add: filteredExpenses_def period_key_not_all startsWith_period_key)

lemma totalIncomeForMonth_period_key:
  "totalIncomeForMonth fh (period_key y m) =
     sum_list (map amount
       (filter (\<lambda>t. type t = Add \<and> month_key (timestamp t) = period_key y m) fh))"
  by (simp add: totalIncomeForMonth_def period_key_not_all startsWith_period_key
      reduce_amounts_sum)

section \<open>Concrete time values\<close>

text \<open>Facts for reading the calendar fields of a concrete time value off \<open>civil_day\<close>.\<close>

lemmas civil_eval = Day_def msPerDay_def DayFromYear_def leap_year_def month_start_simps
  calendar_days_in_month_def

lemma fields_now_utc:
  "YearFromTime 1718020800000 = 2024 \<and> MonthFromTime 1718020800000 = 5
   \<and> DateFromTime 1718020800000 = 10"
  by (rule civil_day) (simp_all add: civil_eval)

lemma fields_now_wib:
  "YearFromTime 1718046000000 = 2024 \<and> MonthFromTime 1718046000000 = 5
   \<and> DateFromTime 1718046000000 = 10"
  by (rule civil_day) (simp_all add: civil_eval)

lemma now_wib:
  "getFullYear 25200000 1718020800000 = 2024" "getMonth 25200000 1718020800000 = 5"
  "getDate 25200000 1718020800000 = 10"
  using fields_now_wib by (simp_all add: getFullYear_def getMonth_def getDate_def)

lemma fields_jan31:
  "YearFromTime 1706743800000 = 2024 \<and> MonthFromTime 1706743800000 = 0
   \<and> DateFromTime 1706743800000 = 31"
  by (rule civil_day) (simp_all add: civil_eval)

lemma fields_jan31_wib:
  "YearFromTime 1706769000000 = 2024 \<and> MonthFromTime 1706769000000 = 1
   \<and> DateFromTime 1706769000000 = 1"
  by (rule civil_day) (simp_all add: civil_eval)

lemma fields_jun5:
  "YearFromTime 1717574400000 = 2024 \<and> MonthFromTime 1717574400000 = 5
   \<and> DateFromTime 1717574400000 = 5"
  by (rule civil_day) (simp_all add: civil_eval)

lemma fields_jun20:
  "YearFromTime 1718870400000 = 2024 \<and> MonthFromTime 1718870400000 = 5
   \<and> DateFromTime 1718870400000 = 20"
  by (rule civil_day) (simp_all add: civil_eval)

lemma fields_jun1:
  "YearFromTime 1717207200000 = 2024 \<and> MonthFromTime 1717207200000 = 5
   \<and> DateFromTime 1717207200000 = 1"
  by (rule civil_day) (simp_all add: civil_eval)

lemma fields_dec31:
  "YearFromTime 1704042000000 = 2023 \<and> MonthFromTime 1704042000000 = 11
   \<and> DateFromTime 1704042000000 = 31"
  by (rule civil_day) (simp_all add: civil_eval)

lemma fields_feb29_wib:
  "YearFromTime 1709190000000 = 2024 \<and> MonthFromTime 1709190000000 = 1
   \<and> DateFromTime 1709190000000 = 29"
  by (rule civil_day) (simp_all add: civil_eval)

lemma period_key_values:
  "period_key 2024 6 = ''2024-06''" "period_key 2024 1 = ''2024-01''"
  "period_key 2024 2 = ''2024-02''" "period_key 2023 12 = ''2023-12''"
  by (simp_all add: period_key_def fixed_digits_2 fixed_digits_4 digit_char_def)

lemma month_key_values:
  "month_key 1718020800000 = ''2024-06''" "month_key 1706743800000 = ''2024-01''"
  "month_key 1717574400000 = ''2024-06''" "month_key 1718870400000 = ''2024-06''"
  "month_key 1717207200000 = ''2024-06''" "month_key 1704042000000 = ''2023-12''"
  using fields_now_utc fields_jan31 fields_jun5 fields_jun20 fields_jun1 fields_dec31
  by (simp_all add: month_key_period_key period_key_values)

lemma local_date_values:
  "toLocaleDateString_frCA 25200000 1706743800000 = ''2024-02-01''"
  "toLocaleDateString_frCA 25200000 1709164800000 = ''2024-02-29''"
proof -
  have "String_of 2024 @ ''-'' @ pad2 2 @ ''-'' @ pad2 1 = ''2024-02-01''"
    "String_of 2024 @ ''-'' @ pad2 2 @ ''-'' @ pad2 29 = ''2024-02-29''"
    by (simp_all add: String_of_def pad2_def padStart_def digits.simps digit_char_def)
  then show "toLocaleDateString_frCA 25200000 1706743800000 = ''2024-02-01''"
    "toLocaleDateString_frCA 25200000 1709164800000 = ''2024-02-29''"
    using fields_jan31_wib fields_feb29_wib by (simp_all add: toLocaleDateString_frCA_def Let_def)
qed

lemma toISOString_jan31: "toISOString 1706743800000 = ''2024-01-31T23:30:00.000Z''"
proof -
  have "toISOString 1706743800000 =
      iso_year 2024 @ ''-'' @ pad2 1 @ ''-'' @ pad2 31 @ ''T'' @ pad2 (HourFromTime 1706743800000)
        @ '':'' @ pad2 (MinFromTime 1706743800000) @ '':'' @ pad2 (SecFromTime 1706743800000)
        @ ''.'' @ padStart 3 CHR ''0'' (String_of (msFromTime 1706743800000)) @ ''Z''"
    using fields_jan31 by (simp add: toISOString_def)
  also have "\<dots> = ''2024-01-31T23:30:00.000Z''"
    by code_simp
  finally show ?thesis .
qed

section \<open>Period selector\<close>

lemma set_foldl_Set_add: "set (foldl Set_add s xs) = set s \<union> set xs"
  by (induction xs arbitrary: s) (auto simp: Set_add_def)

lemma distinct_foldl_Set_add: "distinct s \<Longrightarrow> distinct (foldl Set_add s xs)"
  by (induction xs arbitrary: s) (auto simp: Set_add_def)

lemma foldl_Set_add_Nil_iff: "foldl Set_add [] xs = [] \<longleftrightarrow> xs = []"
  using set_foldl_Set_add [of "[]" xs] by (metis set_empty sup_bot.left_neutral)

lemma period_key_less:
  assumes "0 \<le> y1" "y1 \<le> 9999" "0 \<le> y2" "y2 \<le> 9999"
    and "0 \<le> m1" "m1 \<le> 99" "0 \<le> m2" "m2 \<le> 99"
  shows "period_key y1 m1 < period_key y2 m2 \<longleftrightarrow> y1 < y2 \<or> (y1 = y2 \<and> m1 < m2)"
proof -
  have y: "nat y1 < 10 ^ 4" "nat y2 < 10 ^ 4" and m: "nat m1 < 10 ^ 2" "nat m2 < 10 ^ 2"
    using assms by simp_all
  have "period_key y1 m1 < period_key y2 m2 \<longleftrightarrow>
      fixed_digits 4 (nat y1) < fixed_digits 4 (nat y2)
      \<or> (fixed_digits 4 (nat y1) = fixed_digits 4 (nat y2)
          \<and> fixed_digits 2 (nat m1) < fixed_digits 2 (nat m2))"
    unfolding period_key_def
    by (subst append_less_same_length) (simp_all only: length_fixed_digits append_Cons append_Nil Cons_less_Cons, simp)
  also have "\<dots> \<longleftrightarrow> nat y1 < nat y2 \<or> (nat y1 = nat y2 \<and> nat m1 < nat m2)"
    by (simp only: fixed_digits_less [OF y] fixed_digits_inj [OF y] fixed_digits_less [OF m])
  also have "\<dots> \<longleftrightarrow> y1 < y2 \<or> (y1 = y2 \<and> m1 < m2)"
    using assms by auto
  finally show ?thesis .
qed

lemma month_key_less:
  assumes "0 \<le> YearFromTime t1" "YearFromTime t1 \<le> 9999"
    and "0 \<le> YearFromTime t2" "YearFromTime t2 \<le> 9999"
  shows "month_key t1 < month_key t2 \<longleftrightarrow>
     YearFromTime t1 < YearFromTime t2
     \<or> (YearFromTime t1 = YearFromTime t2 \<and> MonthFromTime t1 < MonthFromTime t2)"
proof -
  have "0 \<le> MonthFromTime t1 + 1" "MonthFromTime t1 + 1 \<le> 99"
    "0 \<le> MonthFromTime t2 + 1" "MonthFromTime t2 + 1 \<le> 99"
    using MonthFromTime_range [of t1] MonthFromTime_range [of t2] by simp_all
  from period_key_less [OF assms this]
  have "period_key (YearFromTime t1) (MonthFromTime t1 + 1)
      < period_key (YearFromTime t2) (MonthFromTime t2 + 1) \<longleftrightarrow>
    YearFromTime t1 < YearFromTime t2
    \<or> (YearFromTime t1 = YearFromTime t2 \<and> MonthFromTime t1 < MonthFromTime t2)"
    by auto
  then show ?thesis
    by (simp only: month_key_period_key assms)
qed

text \<open>
  C7. For every ledger, \<open>monthOptions\<close> is the sentinel \<open>all\<close> followed by the distinct
  month keys of the ledger's timestamps in strictly descending order; for an empty ledger it
  is \<open>all\<close> followed by the key of the current month alone, so there is always a period
  to select. For timestamps of the years 0000 to 9999 the descending order of the keys is the
  order of the months from the most recent back.
\<close>

theorem monthOptions_periods:
  "(\<exists>ks. monthOptions now all = ''all'' # ks \<and> ks \<noteq> [] \<and> sorted_wrt (\<lambda>a b. b < a) ks
       \<and> set ks = (if all = [] then {month_key now}
                   else (\<lambda>t. month_key (timestamp t)) ` set all))
   \<and> monthOptions now [] = [''all'', month_key now]
   \<and> (0 \<le> YearFromTime t1 \<and> YearFromTime t1 \<le> 9999
        \<and> 0 \<le> YearFromTime t2 \<and> YearFromTime t2 \<le> 9999
      \<longrightarrow> (month_key t1 < month_key t2 \<longleftrightarrow>
            YearFromTime t1 < YearFromTime t2
            \<or> (YearFromTime t1 = YearFromTime t2 \<and> MonthFromTime t1 < MonthFromTime t2)))"
proof -
  define keys where "keys = foldl Set_add [] (map (\<lambda>t. month_key (timestamp t)) all)"
  define options where "options = (if length keys = 0 then Set_add keys (month_key now) else keys)"
  have keys: "distinct keys" "set keys = (\<lambda>t. month_key (timestamp t)) ` set all"
    "keys = [] \<longleftrightarrow> all = []"
    by (simp_all add: keys_def distinct_foldl_Set_add set_foldl_Set_add foldl_Set_add_Nil_iff)
  have options: "distinct options" "options \<noteq> []"
    "set options = (if all = [] then {month_key now}
       else (\<lambda>t. month_key (timestamp t)) ` set all)"
    using keys by (auto simp: options_def Set_add_def)
  have m: "monthOptions now all = ''all'' # rev (sort options)"
    by (simp add: monthOptions_def keys_def options_def Let_def)
  have "sorted_wrt (<) (sort options)"
    using options(1) by (simp add: strict_sorted_iff)
  then have "sorted_wrt (\<lambda>a b. b < a) (rev (sort options))"
    by (simp add: sorted_wrt_rev)
  moreover have "rev (sort options) \<noteq> []"
    using options(2) by (metis rev_is_Nil_conv set_empty set_sort)
  moreover have "set (rev (sort options)) = set options"
    by simp
  ultimately have "\<exists>ks. monthOptions now all = ''all'' # ks \<and> ks \<noteq> []
      \<and> sorted_wrt (\<lambda>a b. b < a) ks
      \<and> set ks = (if all = [] then {month_key now}
                  else (\<lambda>t. month_key (timestamp t)) ` set all)"
    using m options(3) by (intro exI [of _ "rev (sort options)"]) simp
  moreover have "monthOptions now [] = [''all'', month_key now]"
    by (simp add: monthOptions_def Set_add_def)
  ultimately show ?thesis
    using month_key_less [of t1 t2] by blast
qed

theorem monthOptions_periods_witness:
  "monthOptions 1718020800000
     [\<lparr>timestamp = 1706743800000, amount = 50000, desc = ''makan malam'', type = Remove,
        category = Some ''Makan''\<rparr>,
      \<lparr>timestamp = 1717574400000, amount = 100000, desc = ''pulsa'', type = Remove,
        category = Some ''Pengeluaran Umum''\<rparr>,
      \<lparr>timestamp = 1704042000000, amount = 30000, desc = ''kembang api'', type = Remove,
        category = None\<rparr>,
      \<lparr>timestamp = 1718870400000, amount = 250000, desc = ''listrik'', type = Remove,
        category = Some ''Tagihan''\<rparr>]
   = [''all'', ''2024-06'', ''2024-01'', ''2023-12'']
   \<and> monthOptions 1718020800000 [] = [''all'', ''2024-06'']
   \<and> YearFromTime 1704042000000 = 2023 \<and> YearFromTime 1706743800000 = 2024
   \<and> month_key 1704042000000 < month_key 1706743800000"
proof -
  let ?L = "[\<lparr>timestamp = 1706743800000, amount = 50000, desc = ''makan malam'', type = Remove,
        category = Some ''Makan''\<rparr>,
      \<lparr>timestamp = 1717574400000, amount = 100000, desc = ''pulsa'', type = Remove,
        category = Some ''Pengeluaran Umum''\<rparr>,
      \<lparr>timestamp = 1704042000000, amount = 30000, desc = ''kembang api'', type = Remove,
        category = None\<rparr>,
      \<lparr>timestamp = 1718870400000, amount = 250000, desc = ''listrik'', type = Remove,
        category = Some ''Tagihan''\<rparr>]"
  have y: "YearFromTime 1704042000000 = 2023" "YearFromTime 1706743800000 = 2024"
    using fields_dec31 fields_jan31 by simp_all
  from monthOptions_periods [of 1718020800000 ?L 1704042000000 1706743800000]
  have "month_key 1704042000000 < month_key 1706743800000"
    by (simp add: y)
  moreover have "monthOptions 1718020800000 ?L = [''all'', ''2024-06'', ''2024-01'', ''2023-12'']"
    by (simp add: monthOptions_def Let_def month_key_values Set_add_def)
  moreover have "monthOptions 1718020800000 [] = [''all'', ''2024-06'']"
    by (simp add: monthOptions_def Let_def month_key_values Set_add_def)
  ultimately show ?thesis
    using y by simp
qed

subsection \<open>The period \<open>all\<close>\<close>

text \<open>
  C9. With the period \<open>all\<close> selected the daily trend series is empty and the income
  total is \<open>0\<close>, whatever the filtered ledger and the fund history hold: the fund history is
  not looked at.
\<close>

theorem all_period_not_applicable:
  "trendData tza fe ''all'' = [] \<and> totalIncomeForMonth fh ''all'' = 0"
  by (simp add: trendData_def totalIncomeForMonth_def)

section \<open>Daily trend builder\<close>

lemma leap_year_two_digit:
  assumes "1 \<le> y" "y \<le> 99"
  shows "leap_year (1900 + y) = leap_year y"
proof -
  have a: "(1900 + y) mod 4 = y mod 4" "(1900 + y) mod 100 = y mod 100"
    using mod_add_eq [of 1900 4 y, symmetric] mod_add_eq [of 1900 100 y, symmetric]
    by simp_all
  have "y mod 100 = y"
    using assms by simp
  with assms a show ?thesis
    by (simp add: leap_year_def)
qed

lemma calendar_MakeFullYear:
  "1 \<le> y \<Longrightarrow> calendar_days_in_month (MakeFullYear y) m = calendar_days_in_month y m"
  by (simp add: MakeFullYear_def calendar_days_in_month_def leap_year_two_digit)

text \<open>Day \<open>0\<close> of the month after month \<open>m\<close> is the last day of month \<open>m\<close>.\<close>

lemma MakeDay_zero:
  assumes "1 \<le> m" "m \<le> 12"
  shows "MakeDay Y m 0 =
     DayFromYear Y + month_start (leap_year Y) (m - 1) + calendar_days_in_month Y m - 1"
proof (cases "m = 12")
  case True
  then show ?thesis
    by (simp add: MakeDay_def month_start_simps DayFromYear_step DaysInYear_def
        calendar_days_in_month_def)
next
  case False
  with assms have m: "0 \<le> m" "m \<le> 11"
    by simp_all
  then have "m div 12 = 0" "m mod 12 = m"
    by simp_all
  moreover have "month_start (leap_year Y) m
      = month_start (leap_year Y) (m - 1) + calendar_days_in_month Y m"
    using m assms(1) by (cases rule: month_cases [of m])
      (simp_all add: month_start_simps calendar_days_in_month_def)
  ultimately show ?thesis
    by (simp add: MakeDay_def)
qed

lemma calendar_days_range: "28 \<le> calendar_days_in_month y m" "calendar_days_in_month y m \<le> 31"
  by (simp_all add: calendar_days_in_month_def)

lemma getDate_last_day:
  assumes "1 \<le> m" "m \<le> 12"
  shows "getDate tza (new_Date tza y m 0) = calendar_days_in_month (MakeFullYear y) m"
proof -
  let ?Y = "MakeFullYear y"
  let ?t = "MakeDate (MakeDay ?Y m 0) 0"
  have "Day ?t = DayFromYear ?Y + month_start (leap_year ?Y) (m - 1)
      + calendar_days_in_month ?Y m - 1"
    by (simp only: Day_MakeDate MakeDay_zero [OF assms])
  then have "DateFromTime ?t = calendar_days_in_month ?Y m"
    using civil_day [of "m - 1" "calendar_days_in_month ?Y m" ?Y ?t] assms
      calendar_days_range [of ?Y m]
    by simp
  then show ?thesis
    by (simp add: getDate_def new_Date_def)
qed

lemma daysInMonth_period_key:
  assumes "1 \<le> y" "y \<le> 9999" "1 \<le> m" "m \<le> 12"
  shows "daysInMonth tza (period_key y m) = Some (calendar_days_in_month y m)"
  using assms
  by (simp add: daysInMonth_def Number_period_key getDate_last_day calendar_MakeFullYear)

lemma dailyTotals_get:
  "get_or_zero (dailyTotals tza fe) k =
     sum_list (map amount (filter (\<lambda>e. toLocaleDateString_frCA tza (timestamp e) = k) fe))"
  by (simp add: dailyTotals_def get_or_zero_foldl_add_to get_or_zero_Nil)

text \<open>
  The keys of the daily totals contain a hyphen, so the object literal behind \<open>dailyTotals\<close>
  holds exactly the own properties of the numeric dictionary, and \<open>dailyTotals[k] || 0\<close> is
  the number read off it.
\<close>

lemma dailyTotals_object:
  "foldl (\<lambda>d expense. accumulate d (toLocaleDateString_frCA tza (timestamp expense))
       (amount expense)) [] fe = numeric (dailyTotals tza fe)"
  "or_zero (get_property (numeric (dailyTotals tza fe)) (selectedMonth @ ''-'' @ pad2 i))
     = Num (get_or_zero (dailyTotals tza fe) (selectedMonth @ ''-'' @ pad2 i))"
proof -
  have "\<forall>e \<in> set fe. toLocaleDateString_frCA tza (timestamp e) \<notin> set Object_prototype_names"
    by (simp add: toLocaleDateString_frCA_def Let_def dash_not_prototype_name)
  then show "foldl (\<lambda>d expense. accumulate d (toLocaleDateString_frCA tza (timestamp expense))
      (amount expense)) [] fe = numeric (dailyTotals tza fe)"
    using foldl_accumulate_numeric
      [of fe "\<lambda>e. toLocaleDateString_frCA tza (timestamp e)" amount "[]"]
    by (simp add: dailyTotals_def numeric_def)
  show "or_zero (get_property (numeric (dailyTotals tza fe)) (selectedMonth @ ''-'' @ pad2 i))
      = Num (get_or_zero (dailyTotals tza fe) (selectedMonth @ ''-'' @ pad2 i))"
    by (rule or_zero_get_property_numeric) (simp add: dash_not_prototype_name)
qed

text \<open>
  For every concrete month (a key \<open>YYYY-MM\<close> of the years 0001 to 9999) the daily series is
  the list over the days \<open>1\<close> up to the number of days the calendar gives the month; the
  entry of a day holds the amounts filed under the key of that day.
\<close>

lemma trendData_period_key:
  assumes "1 \<le> y" "y \<le> 9999" "1 \<le> m" "m \<le> 12"
  shows "trendData tza fe (period_key y m) =
     map (\<lambda>i. \<lparr>day = String_of i,
                total = sum_list (map amount (filter
                  (\<lambda>e. toLocaleDateString_frCA tza (timestamp e) = period_key y m @ ''-'' @ pad2 i)
                  fe))\<rparr>)
       [1..calendar_days_in_month y m]"
  using assms
  by (simp add: trendData_def period_key_not_all daysInMonth_period_key dailyTotals_get)

text \<open>
  Length and gap filling: one entry per day of the month, in ascending order, whatever the
  filtered records and the local zone are (29 entries for February of a leap year, 28
  otherwise).
\<close>

lemma trendData_days:
  assumes "1 \<le> y" "y \<le> 9999" "1 \<le> m" "m \<le> 12"
  shows "length (trendData tza fe (period_key y m)) = nat (calendar_days_in_month y m)
     \<and> map day (trendData tza fe (period_key y m)) = map String_of [1..calendar_days_in_month y m]"
  by (simp add: trendData_period_key [OF assms] comp_def)

subsection \<open>Days of the month\<close>

lemma DateFromTime_range:
  "1 \<le> DateFromTime t"
  "DateFromTime t \<le> calendar_days_in_month (YearFromTime t) (MonthFromTime t + 1)"
proof -
  define d l where "d = DayWithinYear t" and "l = InLeapYear t"
  have d: "0 \<le> d" "d < (if l then 366 else 365)"
    using DayWithinYear_bounds [of t]
    by (simp_all add: d_def l_def DaysInYear_def InLeapYear_def)
  have m: "MonthFromTime t =
      (if d < 31 then 0 else if d < 59 + (if l then 1 else 0) then 1
       else if d < 90 + (if l then 1 else 0) then 2
       else if d < 120 + (if l then 1 else 0) then 3 else if d < 151 + (if l then 1 else 0) then 4
       else if d < 181 + (if l then 1 else 0) then 5 else if d < 212 + (if l then 1 else 0) then 6
       else if d < 243 + (if l then 1 else 0) then 7 else if d < 273 + (if l then 1 else 0) then 8
       else if d < 304 + (if l then 1 else 0) then 9
       else if d < 334 + (if l then 1 else 0) then 10 else 11)"
    by (simp add: MonthFromTime_def Let_def d_def l_def)
  have dt: "DateFromTime t = d - month_start l (MonthFromTime t) + 1"
    by (simp add: DateFromTime_def d_def l_def)
  have ly: "leap_year (YearFromTime t) = l"
    by (simp add: l_def InLeapYear_def)
  show "1 \<le> DateFromTime t"
    unfolding dt m using d by (cases l) (simp_all add: month_start_simps)
  show "DateFromTime t \<le> calendar_days_in_month (YearFromTime t) (MonthFromTime t + 1)"
    unfolding dt calendar_days_in_month_def ly m using d
    by (cases l) (simp_all add: month_start_simps)
qed

text \<open>The calendar fields of a time value depend on its day number only.\<close>

lemma same_day_fields:
  assumes "Day a = Day b"
  shows "YearFromTime a = YearFromTime b" "MonthFromTime a = MonthFromTime b"
    "DateFromTime a = DateFromTime b"
proof -
  show y: "YearFromTime a = YearFromTime b"
    using assms by (simp add: YearFromTime_def)
  have l: "InLeapYear a = InLeapYear b"
    using y by (simp add: InLeapYear_def)
  have d: "DayWithinYear a = DayWithinYear b"
    using y assms by (simp add: DayWithinYear_def)
  show m: "MonthFromTime a = MonthFromTime b"
    by (simp add: MonthFromTime_def l d)
  show "DateFromTime a = DateFromTime b"
    by (simp add: DateFromTime_def l d m)
qed

lemma length_digits_gt: "10 ^ k \<le> n \<Longrightarrow> k < length (digits n)"
proof (induction k arbitrary: n)
  case 0
  show ?case
    by (simp add: digits.simps [of n])
next
  case (Suc k)
  then have "10 \<le> n"
    by (metis le_trans one_le_numeral one_le_power power_Suc2 mult.commute mult_le_mono1 nat_mult_1)
  moreover have "10 ^ k \<le> n div 10"
    using Suc.prems by (simp add: less_eq_div_iff_mult_less_eq mult.commute)
  ultimately show ?case
    using Suc.IH [of "n div 10"] by (simp add: digits.simps [of n])
qed

lemma digits_four: "1000 \<le> n \<Longrightarrow> n \<le> 9999 \<Longrightarrow> digits n = fixed_digits 4 n"
proof -
  assume n: "1000 \<le> n" "n \<le> 9999"
  then have "3 < length (digits n)"
    using length_digits_gt [of 3 n] by simp
  then have "padStart 4 CHR ''0'' (digits n) = digits n"
    by (simp add: padStart_def)
  then show ?thesis
    using digits_fixed [of n 4] n by simp
qed

text \<open>The local date string of a record whose local year has four digits.\<close>

lemma toLocaleDateString_period_key:
  assumes "1000 \<le> YearFromTime (t + tza)" "YearFromTime (t + tza) \<le> 9999"
  shows "toLocaleDateString_frCA tza t =
     period_key (YearFromTime (t + tza)) (MonthFromTime (t + tza) + 1) @ ''-''
       @ pad2 (DateFromTime (t + tza))"
proof -
  have "String_of (YearFromTime (t + tza)) = fixed_digits 4 (nat (YearFromTime (t + tza)))"
    using assms by (simp add: String_of_def digits_four)
  moreover have "pad2 (MonthFromTime (t + tza) + 1)
      = fixed_digits 2 (nat (MonthFromTime (t + tza) + 1))"
    using MonthFromTime_range [of "t + tza"] by (intro pad2_fixed) simp_all
  ultimately show ?thesis
    by (simp add: toLocaleDateString_frCA_def Let_def period_key_def)
qed

lemma pad2_inj:
  "0 \<le> i \<Longrightarrow> i \<le> 99 \<Longrightarrow> 0 \<le> j \<Longrightarrow> j \<le> 99 \<Longrightarrow> pad2 i = pad2 j \<longleftrightarrow> i = j"
  using fixed_digits_inj [of "nat i" 2 "nat j"] by (simp add: pad2_fixed) linarith

text \<open>A month key that is a period key names the year and the month of the time value.\<close>

lemma month_key_eq_period_key:
  assumes "month_key t = period_key y m" "0 \<le> y" "y \<le> 9999" "1 \<le> m" "m \<le> 12"
  shows "YearFromTime t = y \<and> MonthFromTime t + 1 = m"
proof (cases "0 \<le> YearFromTime t \<and> YearFromTime t \<le> 9999")
  case True
  let ?Y = "YearFromTime t" and ?M = "MonthFromTime t + 1"
  have "period_key ?Y ?M = period_key y m"
    using True assms(1) by (simp add: month_key_period_key)
  then have "fixed_digits 4 (nat ?Y) = fixed_digits 4 (nat y)"
    "fixed_digits 2 (nat ?M) = fixed_digits 2 (nat m)"
    by (simp_all add: period_key_def length_fixed_digits)
  moreover have "nat ?Y < 10 ^ 4" "nat y < 10 ^ 4" "nat ?M < 10 ^ 2" "nat m < 10 ^ 2"
    using True assms(2-5) MonthFromTime_range [of t] by auto
  ultimately have "nat ?Y = nat y" "nat ?M = nat m"
    by (simp_all add: fixed_digits_inj)
  then show ?thesis
    using True assms(2-5) MonthFromTime_range [of t] by auto
next
  case False
  then have "hd (month_key t) = CHR ''-'' \<or> hd (month_key t) = CHR ''+''"
    by (auto simp: month_key_def slice_def toISOString_def iso_year_def)
  moreover obtain k where "k < 10" "hd (period_key y m) = digit_char k"
    using hd_fixed_digits [of 4 "nat y"] length_fixed_digits [of 4 "nat y"]
    by (cases "fixed_digits 4 (nat y)") (auto simp: period_key_def)
  ultimately show ?thesis
    using assms(1) digit_char_not_sign [of k] by auto
qed

text \<open>
  The totals are right for the records that the local zone and UTC put on the same day: when
  every record of the filtered ledger of the month has its local date on its UTC date (as
  all have where the local zone is UTC, \<open>tza = 0\<close>), the entry of a day holds the sum of the
  amounts of the filtered records of that day of the selected month, \<open>0\<close> when there is
  none.
\<close>

lemma trendData_same_day:
  assumes "1000 \<le> y" "y \<le> 9999" "1 \<le> m" "m \<le> 12"
    and "\<forall>e \<in> set (filteredExpenses all (period_key y m)).
          Day (timestamp e + tza) = Day (timestamp e)"
  shows "trendData tza (filteredExpenses all (period_key y m)) (period_key y m) =
     map (\<lambda>i. \<lparr>day = String_of i,
                total = sum_list (map amount (filter (\<lambda>e. DateFromTime (timestamp e) = i)
                  (filteredExpenses all (period_key y m))))\<rparr>)
       [1..calendar_days_in_month y m]"
proof -
  let ?fe = "filteredExpenses all (period_key y m)"
  let ?n = "calendar_days_in_month y m"
  have y: "1 \<le> y" "0 \<le> y"
    using assms(1) by simp_all
  have key: "(toLocaleDateString_frCA tza (timestamp e) = period_key y m @ ''-'' @ pad2 i)
      = (DateFromTime (timestamp e) = i)" if e: "e \<in> set ?fe" and i: "i \<in> set [1..?n]" for e i
  proof -
    let ?t = "timestamp e"
    have "month_key ?t = period_key y m"
      using e by (simp add: filteredExpenses_period_key)
    then have utc: "YearFromTime ?t = y" "MonthFromTime ?t + 1 = m"
      using month_key_eq_period_key [of ?t y m] y(2) assms(2-4) by simp_all
    have day: "Day (?t + tza) = Day ?t"
      using assms(5) e by simp
    have loc: "YearFromTime (?t + tza) = y" "MonthFromTime (?t + tza) + 1 = m"
      "DateFromTime (?t + tza) = DateFromTime ?t"
      using same_day_fields [OF day] utc by simp_all
    have "toLocaleDateString_frCA tza ?t = period_key y m @ ''-'' @ pad2 (DateFromTime ?t)"
      using toLocaleDateString_period_key [of ?t tza] loc assms(1,2) by simp
    moreover have "1 \<le> DateFromTime ?t" "DateFromTime ?t \<le> 31"
      using DateFromTime_range [of ?t] calendar_days_range(2) [of "YearFromTime ?t" "MonthFromTime ?t + 1"]
      by simp_all
    moreover have "1 \<le> i" "i \<le> 31"
      using i calendar_days_range(2) [of y m] by simp_all
    ultimately show ?thesis
      by (simp add: pad2_inj)
  qed
  have "map (\<lambda>i. \<lparr>day = String_of i,
        total = sum_list (map amount (filter
          (\<lambda>e. toLocaleDateString_frCA tza (timestamp e) = period_key y m @ ''-'' @ pad2 i)
          ?fe))\<rparr>) [1..?n]
      = map (\<lambda>i. \<lparr>day = String_of i,
        total = sum_list (map amount (filter (\<lambda>e. DateFromTime (timestamp e) = i) ?fe))\<rparr>)
        [1..?n]"
  proof (rule map_cong [OF refl])
    fix i
    assume i: "i \<in> set [1..?n]"
    have "filter (\<lambda>e. toLocaleDateString_frCA tza (timestamp e) = period_key y m @ ''-'' @ pad2 i) ?fe
        = filter (\<lambda>e. DateFromTime (timestamp e) = i) ?fe"
      by (rule filter_cong [OF refl]) (rule key [OF _ i])
    then show "\<lparr>day = String_of i,
        total = sum_list (map amount (filter
          (\<lambda>e. toLocaleDateString_frCA tza (timestamp e) = period_key y m @ ''-'' @ pad2 i)
          ?fe))\<rparr>
      = \<lparr>day = String_of i,
        total = sum_list (map amount (filter (\<lambda>e. DateFromTime (timestamp e) = i) ?fe))\<rparr>"
      by simp
  qed
  then show ?thesis
    by (simp only: trendData_period_key [OF y(1) assms(2-4)])
qed

subsection \<open>The entry of a day near the end of a month\<close>

lemma fields_mar31:
  "YearFromTime 1711915200000 = 2024 \<and> MonthFromTime 1711915200000 = 2
   \<and> DateFromTime 1711915200000 = 31"
  by (rule civil_day) (simp_all add: civil_eval)

lemma fields_mar31_wib:
  "YearFromTime 1711940400000 = 2024 \<and> MonthFromTime 1711940400000 = 3
   \<and> DateFromTime 1711940400000 = 1"
  by (rule civil_day) (simp_all add: civil_eval)

lemma march_values:
  "period_key 2024 3 = ''2024-03''" "month_key 1711915200000 = ''2024-03''"
  "toLocaleDateString_frCA 25200000 1711915200000 = ''2024-04-01''"
proof -
  show pk: "period_key 2024 3 = ''2024-03''"
    by (simp add: period_key_def fixed_digits_2 fixed_digits_4 digit_char_def)
  show "month_key 1711915200000 = ''2024-03''"
    using fields_mar31 by (simp add: month_key_period_key pk)
  have "String_of 2024 @ ''-'' @ pad2 4 @ ''-'' @ pad2 1 = ''2024-04-01''"
    by (simp add: String_of_def pad2_def padStart_def digits.simps digit_char_def)
  then show "toLocaleDateString_frCA 25200000 1711915200000 = ''2024-04-01''"
    using fields_mar31_wib by (simp add: toLocaleDateString_frCA_def Let_def)
qed

text \<open>
  C5. The entry of a day is read off the dictionary under the key of that day of the selected
  month, while the dictionary is keyed by the local date of a record and the filter by its
  UTC month. In a zone seven hours ahead of UTC a record of 40,000 stamped
  2024-03-31T20:00Z is in the filtered set of March 2024, on the 31st; its local date is
  2024-04-01. The series of March has its 31 entries, one per day, but the entry of day 31
  holds \<open>0\<close>, not the 40,000 spent on that day, and so does every other entry.
\<close>

theorem trendData_entry_without_its_expense:
  "filteredExpenses
     [\<lparr>timestamp = 1711915200000, amount = 40000, desc = ''belanja bulanan'', type = Remove,
       category = Some ''Belanja''\<rparr>] ''2024-03''
     = [\<lparr>timestamp = 1711915200000, amount = 40000, desc = ''belanja bulanan'', type = Remove,
         category = Some ''Belanja''\<rparr>]
   \<and> DateFromTime 1711915200000 = 31
   \<and> length (trendData 25200000
       [\<lparr>timestamp = 1711915200000, amount = 40000, desc = ''belanja bulanan'', type = Remove,
         category = Some ''Belanja''\<rparr>] ''2024-03'') = 31
   \<and> trendData 25200000
       [\<lparr>timestamp = 1711915200000, amount = 40000, desc = ''belanja bulanan'', type = Remove,
         category = Some ''Belanja''\<rparr>] ''2024-03'' ! 30
     = \<lparr>day = ''31'', total = 0\<rparr>
   \<and> sum_list (map total (trendData 25200000
       [\<lparr>timestamp = 1711915200000, amount = 40000, desc = ''belanja bulanan'', type = Remove,
         category = Some ''Belanja''\<rparr>] ''2024-03'')) = 0"
proof -
  let ?L = "[\<lparr>timestamp = 1711915200000, amount = 40000, desc = ''belanja bulanan'',
    type = Remove, category = Some ''Belanja''\<rparr>]"
  have mar: "filteredExpenses ?L ''2024-03'' = ?L"
    using filteredExpenses_period_key [of ?L 2024 3] by (simp add: march_values)
  have "daysInMonth 25200000 (period_key 2024 3) = Some (calendar_days_in_month 2024 3)"
    by (rule daysInMonth_period_key) simp_all
  then have days: "daysInMonth 25200000 ''2024-03'' = Some 31"
    by (simp add: march_values calendar_days_in_month_def)
  have trend: "trendData 25200000 ?L ''2024-03'' =
      map (\<lambda>i. \<lparr>day = String_of i, total = 0\<rparr>) [1..31]"
    by (simp add: trendData_def days dailyTotals_get march_values)
  have "String_of 31 = ''31''"
    by (simp add: String_of_def digits.simps digit_char_def)
  then have entry: "trendData 25200000 ?L ''2024-03'' ! 30 = \<lparr>day = ''31'', total = 0\<rparr>"
    by (simp add: trend)
  have sum: "sum_list (map total (trendData 25200000 ?L ''2024-03'')) = 0"
    by (simp add: trend comp_def)
  have len: "length (trendData 25200000 ?L ''2024-03'') = 31"
    by (simp add: trend)
  from mar entry sum len show ?thesis
    using fields_mar31 by simp
qed

subsection \<open>The time zone of the daily series\<close>

text \<open>
  C3. The period filter reads the month of a record off \<open>toISOString\<close>, in UTC, while the
  trend builder reads its day off \<open>toLocaleDateString\<close>, in the local zone. In a zone seven
  hours ahead of UTC, a record of 50,000 stamped 2024-01-31T23:30Z is kept by the filter for
  January 2024 and is counted by the trend builder under the local date 2024-02-01, a key
  that no day of January has: the daily series of January holds 31 zero entries, and the
  record is not in the filtered set of February either.
\<close>

theorem trendData_drops_boundary_record:
  "toISOString 1706743800000 = ''2024-01-31T23:30:00.000Z''
   \<and> toLocaleDateString_frCA 25200000 1706743800000 = ''2024-02-01''
   \<and> filteredExpenses
        [\<lparr>timestamp = 1706743800000, amount = 50000, desc = ''makan malam'', type = Remove,
          category = Some ''Makan''\<rparr>] ''2024-01''
      = [\<lparr>timestamp = 1706743800000, amount = 50000, desc = ''makan malam'', type = Remove,
          category = Some ''Makan''\<rparr>]
   \<and> trendData 25200000
        [\<lparr>timestamp = 1706743800000, amount = 50000, desc = ''makan malam'', type = Remove,
          category = Some ''Makan''\<rparr>] ''2024-01''
      = map (\<lambda>i. \<lparr>day = String_of i, total = 0\<rparr>) [1..31]
   \<and> filteredExpenses
        [\<lparr>timestamp = 1706743800000, amount = 50000, desc = ''makan malam'', type = Remove,
          category = Some ''Makan''\<rparr>] ''2024-02'' = []"
proof -
  let ?L = "[\<lparr>timestamp = 1706743800000, amount = 50000, desc = ''makan malam'', type = Remove,
    category = Some ''Makan''\<rparr>]"
  have jan: "filteredExpenses ?L ''2024-01'' = ?L"
    using filteredExpenses_period_key [of ?L 2024 1]
    by (simp add: period_key_values month_key_values)
  have feb: "filteredExpenses ?L ''2024-02'' = []"
    using filteredExpenses_period_key [of ?L 2024 2]
    by (simp add: period_key_values month_key_values)
  have "daysInMonth 25200000 (period_key 2024 1) = Some (calendar_days_in_month 2024 1)"
    by (rule daysInMonth_period_key) simp_all
  then have days: "daysInMonth 25200000 ''2024-01'' = Some 31"
    by (simp add: period_key_values calendar_days_in_month_def)
  have trend: "trendData 25200000 ?L ''2024-01'' =
      map (\<lambda>i. \<lparr>day = String_of i, total = 0\<rparr>) [1..31]"
    by (simp add: trendData_def days dailyTotals_get local_date_values)
  from jan feb trend show ?thesis
    by (simp add: toISOString_jan31 local_date_values)
qed

section \<open>Forecast engine\<close>

lemma fetchForecast_current_month:
  assumes "1 \<le> y" "y \<le> 9999" "1 \<le> m" "m \<le> 12"
    and "getFullYear tza now = y" "getMonth tza now = m - 1"
  shows "fetchForecast tza now (period_key y m) fe income =
     (if income = 0
      then SetForecast (Some ''Tambahkan pemasukan bulan ini untuk melihat prediksi.'')
      else if sum_list (map amount fe) = 0
      then SetForecast (Some ''Belum ada pengeluaran. Anda di jalur yang tepat untuk berhemat!'')
      else GenerateContent \<lparr>totalIncome = income, totalExpensesSoFar = sum_list (map amount fe),
        daysPassed = getDate tza now, totalDaysInMonth = calendar_days_in_month y m\<rparr>)"
  using assms
  by (simp add: fetchForecast_def period_key_not_all Number_period_key Let_def
      reduce_amounts_sum getDate_last_day calendar_MakeFullYear)

text \<open>
  C1 (as amended). In the Computed state (the selected period is the current month, the
  month's income and the spend so far are not zero) the engine works out three numbers:
  the spend so far as the sum of the filtered amounts, the days passed as the day of the
  month of now, and the number of days of the month by the calendar. It hands exactly these,
  with the month's income, to the text-generation service inside the prompt. The daily rate,
  the projected total and the delta are not computed by the engine; the prompt asks the
  service to work them out.
\<close>

theorem fetchForecast_computed:
  assumes "1 \<le> y" "y \<le> 9999" "1 \<le> m" "m \<le> 12"
    and "getFullYear tza now = y" "getMonth tza now = m - 1"
    and "income \<noteq> 0" "sum_list (map amount fe) \<noteq> 0"
  shows "fetchForecast tza now (period_key y m) fe income =
     GenerateContent \<lparr>totalIncome = income, totalExpensesSoFar = sum_list (map amount fe),
       daysPassed = getDate tza now, totalDaysInMonth = calendar_days_in_month y m\<rparr>"
  using assms by (simp add: fetchForecast_current_month)

theorem fetchForecast_computed_witness:
  "getFullYear 25200000 1718020800000 = 2024 \<and> getMonth 25200000 1718020800000 = 6 - 1
   \<and> fetchForecast 25200000 1718020800000 ''2024-06''
        [\<lparr>timestamp = 1717574400000, amount = 600000, desc = ''sewa'', type = Remove,
          category = Some ''Rumah''\<rparr>] 1000000
      = GenerateContent \<lparr>totalIncome = 1000000, totalExpensesSoFar = 600000, daysPassed = 10,
          totalDaysInMonth = 30\<rparr>"
proof -
  let ?fe = "[\<lparr>timestamp = 1717574400000, amount = 600000, desc = ''sewa'', type = Remove,
    category = Some ''Rumah''\<rparr>]"
  have "fetchForecast 25200000 1718020800000 (period_key 2024 6) ?fe 1000000 =
     GenerateContent \<lparr>totalIncome = 1000000, totalExpensesSoFar = sum_list (map amount ?fe),
       daysPassed = getDate 25200000 1718020800000,
       totalDaysInMonth = calendar_days_in_month 2024 6\<rparr>"
    by (rule fetchForecast_computed) (simp_all add: now_wib)
  then show ?thesis
    by (simp add: now_wib period_key_values calendar_days_in_month_def)
qed

text \<open>
  The claim as stated fails: for an income of 1,000,000 and a spend so far of 300,000 on
  day 10 of a month of 30 days, what the engine sends holds these four numbers and
  neither the daily rate 30,000 nor the projected total 900,000 nor the delta 100,000.
\<close>

theorem fetchForecast_payload_counterexample:
  "fetchForecast 25200000 1718020800000 ''2024-06''
     [\<lparr>timestamp = 1717574400000, amount = 300000, desc = ''belanja'', type = Remove,
       category = Some ''Makan''\<rparr>] 1000000
   = GenerateContent \<lparr>totalIncome = 1000000, totalExpensesSoFar = 300000, daysPassed = 10,
       totalDaysInMonth = 30\<rparr>"
  using fetchForecast_current_month [of 2024 6 25200000 1718020800000
    "[\<lparr>timestamp = 1717574400000, amount = 300000, desc = ''belanja'', type = Remove,
       category = Some ''Makan''\<rparr>]" 1000000]
  by (simp add: now_wib period_key_values calendar_days_in_month_def)

text \<open>
  C10. When the current month is selected and the month has income, the spend so far that
  decides between the zero-spend message and the call to the service, and that is sent as
  the spend so far, is the sum of the amounts of every ledger record whose timestamp lies in
  the selected month: the records dated up to now and the records dated after now alike.
\<close>

theorem forecast_of_spend:
  assumes "1 \<le> y" "y \<le> 9999" "1 \<le> m" "m \<le> 12"
    and "getFullYear tza now = y" "getMonth tza now = m - 1"
    and "totalIncomeForMonth (fundHistory st) (period_key y m) \<noteq> 0"
  shows "(let in_month = filter (\<lambda>e. month_key (timestamp e) = period_key y m) (allExpenses st);
              spend = sum_list (map amount in_month)
          in forecast_of tza now st (period_key y m) =
               (if spend = 0
                then SetForecast
                  (Some ''Belum ada pengeluaran. Anda di jalur yang tepat untuk berhemat!'')
                else GenerateContent
                  \<lparr>totalIncome = totalIncomeForMonth (fundHistory st) (period_key y m),
                   totalExpensesSoFar = spend, daysPassed = getDate tza now,
                   totalDaysInMonth = calendar_days_in_month y m\<rparr>)
             \<and> spend = sum_list (map amount (filter (\<lambda>e. timestamp e \<le> now) in_month))
                     + sum_list (map amount (filter (\<lambda>e. now < timestamp e) in_month)))"
proof -
  have split: "sum_list (map amount xs) = sum_list (map amount (filter (\<lambda>e. timestamp e \<le> now) xs))
      + sum_list (map amount (filter (\<lambda>e. now < timestamp e) xs))"
    for xs :: "global_transaction list"
    by (induction xs) auto
  have main: "forecast_of tza now st (period_key y m) =
      (if sum_list (map amount
            (filter (\<lambda>e. month_key (timestamp e) = period_key y m) (allExpenses st))) = 0
       then SetForecast
         (Some ''Belum ada pengeluaran. Anda di jalur yang tepat untuk berhemat!'')
       else GenerateContent
         \<lparr>totalIncome = totalIncomeForMonth (fundHistory st) (period_key y m),
          totalExpensesSoFar = sum_list (map amount
            (filter (\<lambda>e. month_key (timestamp e) = period_key y m) (allExpenses st))),
          daysPassed = getDate tza now,
          totalDaysInMonth = calendar_days_in_month y m\<rparr>)"
    using assms
    by (simp add: forecast_of_def fetchForecast_current_month filteredExpenses_period_key)
  show ?thesis
    unfolding Let_def
    by (rule conjI [OF main split])
qed

text \<open>
  On 10 June 2024 a state with an income of 1,000,000 on 1 June, a fund expense of 100,000
  and a daily expense of 200,000 on 5 June, a daily expense of 250,000 dated 20 June, and an
  archived expense from January: the spend so far is 550,000, the record of 20 June included.
\<close>

theorem forecast_of_spend_witness:
  "getFullYear 25200000 1718020800000 = 2024 \<and> getMonth 25200000 1718020800000 = 6 - 1
   \<and> totalIncomeForMonth (fundHistory june_state) ''2024-06'' = 1000000
   \<and> forecast_of 25200000 1718020800000 june_state ''2024-06''
      = GenerateContent \<lparr>totalIncome = 1000000, totalExpensesSoFar = 550000, daysPassed = 10,
          totalDaysInMonth = 30\<rparr>"
proof -
  have inc: "totalIncomeForMonth (fundHistory june_state) (period_key 2024 6) = 1000000"
    by (simp only: totalIncomeForMonth_period_key)
      (simp add: june_state_def month_key_values period_key_values)
  then have inc': "totalIncomeForMonth (fundHistory june_state) ''2024-06'' = 1000000"
    by (simp only: period_key_values)
  have led: "allExpenses june_state =
     [\<lparr>timestamp = 1706743800000, amount = 50000, desc = ''makan malam'', type = Remove,
        category = Some ''Makan''\<rparr>,
      \<lparr>timestamp = 1717574400000, amount = 100000, desc = ''pulsa'', type = Remove,
        category = Some ''Pengeluaran Umum''\<rparr>,
      \<lparr>timestamp = 1717574400000, amount = 200000, desc = ''pasar'', type = Remove,
        category = Some ''Harian''\<rparr>,
      \<lparr>timestamp = 1718870400000, amount = 250000, desc = ''listrik'', type = Remove,
        category = Some ''Tagihan''\<rparr>]"
    by (simp add: allExpenses_def june_state_def from_archives_def from_fund_def
        from_budgets_def from_daily_def retag_def or_else_def transaction.truncate_def)
  have "1 \<le> (2024::int)" "(2024::int) \<le> 9999" "1 \<le> (6::int)" "(6::int) \<le> 12"
    "getFullYear 25200000 1718020800000 = 2024" "getMonth 25200000 1718020800000 = 6 - 1"
    "totalIncomeForMonth (fundHistory june_state) (period_key 2024 6) \<noteq> 0"
    by (simp_all add: now_wib inc)
  from forecast_of_spend [OF this] show ?thesis
    by (simp add: Let_def inc' led month_key_values period_key_values now_wib
        calendar_days_in_month_def)
qed

end
